theory Spec2Isabelle
  imports Complex_Main "HOL-Library.Sublist"
begin

section \<open>Python strings\<close>

text \<open>
  A Python \<open>str\<close> is a sequence of code points. The model uses \<^typ>\<open>string\<close>, whose
  characters are the code points below 256; the character classes below are those of
  Python 3 on that range.
\<close>

definition is_space :: "char \<Rightarrow> bool" where
  \<comment> \<open>\<open>str.isspace\<close> and the regex class \<open>\s\<close>: TAB..CR, FS..US, space, NEL, NBSP.\<close>
  "is_space c \<longleftrightarrow>
     (let n = (of_char c :: int)
      in (9 \<le> n \<and> n \<le> 13) \<or> (28 \<le> n \<and> n \<le> 32) \<or> n = 133 \<or> n = 160)"

definition is_ascii_digit :: "char \<Rightarrow> bool" where
  \<comment> \<open>the regex class \<open>\d\<close>\<close>
  "is_ascii_digit c \<longleftrightarrow> (let n = (of_char c :: int) in 48 \<le> n \<and> n \<le> 57)"

definition py_lower_char :: "char \<Rightarrow> char" where
  \<comment> \<open>\<open>str.lower\<close> on one code point: A-Z and the Latin-1 capitals (not the times sign)
      move up by 32, which sets the bit of value 32\<close>
  "py_lower_char c =
     (let n = (of_char c :: int)
      in if (65 \<le> n \<and> n \<le> 90) \<or> (192 \<le> n \<and> n \<le> 222 \<and> n \<noteq> 215)
         then (case c of Char b0 b1 b2 b3 b4 b5 b6 b7 \<Rightarrow> Char b0 b1 b2 b3 b4 True b6 b7)
         else c)"

definition py_lower :: "string \<Rightarrow> string" where
  "py_lower s = map py_lower_char s"

definition py_strip :: "string \<Rightarrow> string" where
  \<comment> \<open>\<open>s.strip()\<close>\<close>
  "py_strip s = rev (dropWhile is_space (rev (dropWhile is_space s)))"

definition py_rstrip_chars :: "(char \<Rightarrow> bool) \<Rightarrow> string \<Rightarrow> string" where
  \<comment> \<open>\<open>s.rstrip(chars)\<close>\<close>
  "py_rstrip_chars P s = rev (dropWhile P (rev s))"

definition py_strip_chars :: "(char \<Rightarrow> bool) \<Rightarrow> string \<Rightarrow> string" where
  \<comment> \<open>\<open>s.strip(chars)\<close>\<close>
  "py_strip_chars P s = rev (dropWhile P (rev (dropWhile P s)))"

function collapse_ws :: "string \<Rightarrow> string" where
  \<comment> \<open>\<open>re.sub(r"\s+", " ", s)\<close>: every maximal run of whitespace becomes one space\<close>
  "collapse_ws [] = []"
| "collapse_ws (c # cs) =
     (if is_space c then CHR '' '' # collapse_ws (dropWhile is_space cs)
      else c # collapse_ws cs)"
  by pat_completeness auto
termination
  by (relation "measure length") (auto simp: less_Suc_eq_le length_dropWhile_le)

function py_replace :: "string \<Rightarrow> string \<Rightarrow> string \<Rightarrow> string" where
  \<comment> \<open>\<open>s.replace(old, new)\<close> for a non-empty \<open>old\<close>: leftmost non-overlapping occurrences\<close>
  "py_replace old new [] = []"
| "py_replace old new (c # cs) =
     (if prefix old (c # cs) then new @ py_replace old new (drop (length old - 1) cs)
      else c # py_replace old new cs)"
  by pat_completeness auto
termination
  by (relation "measure (\<lambda>(old, new, s). length s)") auto

function digits_of_nat :: "nat \<Rightarrow> string" where
  "digits_of_nat n =
     (if n < 10 then [''0123456789'' ! n]
      else digits_of_nat (n div 10) @ [''0123456789'' ! (n mod 10)])"
  by pat_completeness auto
termination
  by (relation "measure id") auto

declare digits_of_nat.simps [simp del]

definition py_str_int :: "int \<Rightarrow> string" where
  \<comment> \<open>\<open>str(i)\<close> for an int\<close>
  "py_str_int i = (if i < 0 then CHR ''-'' # digits_of_nat (nat (- i)) else digits_of_nat (nat i))"

section \<open>Path components: \<open>sanitize_component\<close>\<close>

definition win_illegal :: "char \<Rightarrow> bool" where
  \<comment> \<open>\<open>WIN_ILLEGAL_RE\<close>, the same class in both files: \<open>< > : " / \ | ? *\<close> and 0x00-0x1F\<close>
  "win_illegal c \<longleftrightarrow>
     c \<in> set [CHR ''<'', CHR ''>'', CHR '':'', CHR 0x22, CHR ''/'', CHR 0x5C, CHR ''|'',
              CHR ''?'', CHR ''*'']
     \<or> (of_char c :: int) \<le> 31"

definition RESERVED_WIN_NAMES :: "string list" where
  "RESERVED_WIN_NAMES =
     [''con'', ''prn'', ''aux'', ''nul'',
      ''com1'', ''com2'', ''com3'', ''com4'', ''com5'', ''com6'', ''com7'', ''com8'', ''com9'',
      ''lpt1'', ''lpt2'', ''lpt3'', ''lpt4'', ''lpt5'', ''lpt6'', ''lpt7'', ''lpt8'', ''lpt9'']"

definition sanitize_clean :: "string \<Rightarrow> string" where
  \<comment> \<open>the first two statements, shared by both files:
      \<open>name = WIN_ILLEGAL_RE.sub(" ", name)\<close>;
      \<open>name = re.sub(r"\s+", " ", name).strip().rstrip(".")\<close>\<close>
  "sanitize_clean name =
     py_rstrip_chars (\<lambda>c. c = CHR ''.'')
       (py_strip (collapse_ws (map (\<lambda>c. if win_illegal c then CHR '' '' else c) name)))"

definition reserved_suffix :: "string \<Rightarrow> string" where
  \<comment> \<open>\<open>if name.lower() in RESERVED_WIN_NAMES: name = f"{name}_"\<close>\<close>
  "reserved_suffix name = (if py_lower name \<in> set RESERVED_WIN_NAMES then name @ ''_'' else name)"

definition sanitize_component_tool :: "string \<Rightarrow> string" where
  \<comment> \<open>\<open>sanitize_component\<close> of movie_tool.py\<close>
  "sanitize_component_tool name = reserved_suffix (sanitize_clean name)"

definition sanitize_component :: "string \<Rightarrow> string" where
  \<comment> \<open>\<open>sanitize_component\<close> of movie_tools.py, with \<open>if not name: name = "_"\<close>\<close>
  "sanitize_component name =
     (let name1 = sanitize_clean name;
          name2 = (if name1 = [] then ''_'' else name1)
      in reserved_suffix name2)"

section \<open>Template rendering: \<open>render_format\<close>\<close>

text \<open>
  The render context is the dict built by the callers: \<open>n\<close>, \<open>ny\<close>, \<open>s00e00\<close>, \<open>t\<close> hold
  strings and \<open>y\<close>, \<open>s\<close>, \<open>e\<close> hold ints. A key that is missing or holds \<open>None\<close> is
  \<open>None\<close> here.
\<close>

record render_ctx =
  ctx_n :: "string option"
  ctx_y :: "int option"
  ctx_ny :: "string option"
  ctx_s :: "int option"
  ctx_e :: "int option"
  ctx_s00e00 :: "string option"
  ctx_t :: "string option"

definition str_or_empty :: "string option \<Rightarrow> string" where
  \<comment> \<open>\<open>str(ctx.get(k, "") or "")\<close> for a string field\<close>
  "str_or_empty v = (case v of None \<Rightarrow> [] | Some s \<Rightarrow> s)"

definition int_or_empty :: "int option \<Rightarrow> string" where
  \<comment> \<open>\<open>str(ctx.get("y", "") or "")\<close>: \<open>None\<close> and 0 are falsy\<close>
  "int_or_empty v = (case v of None \<Rightarrow> [] | Some i \<Rightarrow> if i = 0 then [] else py_str_int i)"

definition pad2 :: "int option \<Rightarrow> string" where
  \<comment> \<open>\<open>f"{int(val):02d}" if val is not None else ""\<close>\<close>
  "pad2 v =
     (case v of None \<Rightarrow> []
      | Some i \<Rightarrow> if 0 \<le> i \<and> i < 10 then CHR ''0'' # py_str_int i else py_str_int i)"

definition safe_fields :: "(string \<Rightarrow> string) \<Rightarrow> render_ctx \<Rightarrow> (string \<times> string) list" where
  \<comment> \<open>the dict \<open>safe\<close>, in insertion order; the argument is the file's \<open>sanitize_component\<close>\<close>
  "safe_fields san ctx =
     [(''n'', san (str_or_empty (ctx_n ctx))),
      (''y'', int_or_empty (ctx_y ctx)),
      (''ny'', san (str_or_empty (ctx_ny ctx))),
      (''s'', pad2 (ctx_s ctx)),
      (''e'', pad2 (ctx_e ctx)),
      (''s00e00'', str_or_empty (ctx_s00e00 ctx)),
      (''t'', san (str_or_empty (ctx_t ctx)))]"

definition substitute :: "(string \<times> string) list \<Rightarrow> string \<Rightarrow> string" where
  \<comment> \<open>\<open>for k, v in safe.items(): out = out.replace("{"+k+"}", v)\<close>\<close>
  "substitute safe fmt =
     foldl (\<lambda>out (k, v). py_replace (CHR ''{'' # k @ ''}'') v out) fmt safe"

definition strip_trailing_dash :: "string \<Rightarrow> string" where
  \<comment> \<open>\<open>re.sub(r"\s*-\s*$", "", out)\<close>: a final dash with the whitespace around it\<close>
  "strip_trailing_dash s =
     (let t = py_rstrip_chars is_space s
      in if t \<noteq> [] \<and> last t = CHR ''-'' then py_rstrip_chars is_space (butlast t) else s)"

function strip_empty_parens :: "string \<Rightarrow> string" where
  \<comment> \<open>\<open>re.sub(r"\(\s*\)", "", out)\<close>\<close>
  "strip_empty_parens [] = []"
| "strip_empty_parens (c # cs) =
     (if c = CHR ''('' \<and> dropWhile is_space cs \<noteq> [] \<and> hd (dropWhile is_space cs) = CHR '')''
      then strip_empty_parens (tl (dropWhile is_space cs))
      else c # strip_empty_parens cs)"
  by pat_completeness auto
termination
proof (relation "measure length")
  fix c :: char and cs :: string
  have "length (tl (dropWhile is_space cs)) \<le> length cs"
    using length_dropWhile_le [of is_space cs] by simp
  then show "(tl (dropWhile is_space cs), c # cs) \<in> measure length" by simp
qed auto

definition trailing_sep :: "char \<Rightarrow> bool" where
  \<comment> \<open>the class \<open>[ ._-]\<close>\<close>
  "trailing_sep c \<longleftrightarrow> c \<in> set [CHR '' '', CHR ''.'', CHR ''_'', CHR ''-'']"

definition strip_trailing_seps :: "string \<Rightarrow> string" where
  \<comment> \<open>\<open>re.sub(r"[ ._-]+$", "", out)\<close>; \<open>$\<close> also matches before a final newline\<close>
  "strip_trailing_seps s =
     (if s \<noteq> [] \<and> last s = CHR 0x0A
      then py_rstrip_chars trailing_sep (butlast s) @ [CHR 0x0A]
      else py_rstrip_chars trailing_sep s)"

definition path_sep :: "char \<Rightarrow> bool" where
  \<comment> \<open>the class \<open>[\\/]\<close>\<close>
  "path_sep c \<longleftrightarrow> c = CHR ''/'' \<or> c = CHR 0x5C"

fun split_at :: "(char \<Rightarrow> bool) \<Rightarrow> string \<Rightarrow> string list" where
  \<comment> \<open>the pieces between the characters of a class\<close>
  "split_at P [] = [[]]"
| "split_at P (c # cs) =
     (if P c then [] # split_at P cs
      else (case split_at P cs of [] \<Rightarrow> [[c]] | x # xs \<Rightarrow> (c # x) # xs))"

definition path_parts :: "string \<Rightarrow> string list" where
  \<comment> \<open>\<open>[p for p in re.split(r"[\\/]+", rel_path.strip().strip("/\\")) if p]\<close>: splitting at
      runs of separators and dropping the empty pieces gives the non-empty pieces between
      separators\<close>
  "path_parts rel_path =
     filter (\<lambda>p. p \<noteq> []) (split_at path_sep (py_strip_chars path_sep (py_strip rel_path)))"

definition Path :: "string list \<Rightarrow> string list" where
  \<comment> \<open>the \<open>Path\<close> built from the parts, as the list of its components: empty segments vanish, and no
      sanitized segment holds a separator or is a dot\<close>
  "Path parts = filter (\<lambda>p. p \<noteq> []) parts"

definition sanitize_path_components :: "(string \<Rightarrow> string) \<Rightarrow> string \<Rightarrow> string list" where
  \<comment> \<open>\<open>_sanitize_path_components\<close>; the argument is the file's \<open>sanitize_component\<close>\<close>
  "sanitize_path_components san rel_path = Path (map san (path_parts rel_path))"

definition render_mid :: "(string \<Rightarrow> string) \<Rightarrow> string \<Rightarrow> render_ctx \<Rightarrow> string" where
  \<comment> \<open>the statements both files share: substitution, \<open>re.sub(r"\s+", " ", out).strip()\<close>,
      the trailing dash, the empty parentheses\<close>
  "render_mid san fmt ctx =
     strip_empty_parens (strip_trailing_dash (py_strip (collapse_ws
       (substitute (safe_fields san ctx) fmt))))"

definition render_format_tool :: "string \<Rightarrow> render_ctx \<Rightarrow> string list" where
  \<comment> \<open>\<open>render_format\<close> of movie_tool.py\<close>
  "render_format_tool fmt ctx =
     sanitize_path_components sanitize_component_tool
       (render_mid sanitize_component_tool fmt ctx)"

definition render_format :: "string \<Rightarrow> render_ctx \<Rightarrow> string list" where
  \<comment> \<open>\<open>render_format\<close> of movie_tools.py, with \<open>re.sub(r"[ ._-]+$", "", out)\<close>\<close>
  "render_format fmt ctx =
     sanitize_path_components sanitize_component
       (strip_trailing_seps (render_mid sanitize_component fmt ctx))"

definition empty_ctx :: render_ctx where
  "empty_ctx = \<lparr>ctx_n = None, ctx_y = None, ctx_ny = None, ctx_s = None, ctx_e = None,
                ctx_s00e00 = None, ctx_t = None\<rparr>"

section \<open>Candidate scoring: \<open>jaccard\<close>, \<open>choose_best_match\<close>, \<open>choose_best_tv\<close>\<close>

text \<open>
  A catalog result is a JSON object; a key that is missing or null is \<open>None\<close>. A number
  of the JSON text is an integer or a real (\<open>json_number\<close>) with the value it is written
  as: Python reads the first as an \<open>int\<close> and the second as a \<open>float\<close>. The literals
  \<open>NaN\<close> and \<open>Infinity\<close>, which are no JSON, are left out.

  The program computes with IEEE doubles. A double is modelled as the rational it denotes,
  and every operation of the program (a literal, a conversion to \<open>float\<close>, a product, a
  sum, a quotient) is the exact result rounded to the nearest double, ties to even
  (\<open>to_double\<close>, below). The score formulas are given first in exact arithmetic
  (\<open>pop_score\<close>, \<open>movie_score\<close>, \<open>tv_score\<close>) and then as the program computes them
  (\<open>pop_score_double\<close>, \<open>movie_score_double\<close>, \<open>tv_score_double\<close>); the scorers
  \<open>choose_best_match\<close> and \<open>choose_best_tv\<close> use the latter.
\<close>

datatype json_number = JInt int | JReal rat

primrec number_value :: "json_number \<Rightarrow> rat" where
  "number_value (JInt n) = of_int n"
| "number_value (JReal x) = x"

record item =
  item_id :: int
  title :: "string option"
  original_title :: "string option"
  name :: "string option"
  original_name :: "string option"
  release_date :: "string option"
  first_air_date :: "string option"
  popularity :: "json_number option"
  poster_path :: "string option"

datatype py_error = ValueError | OverflowError | RequestError

definition str_or :: "string option \<Rightarrow> string \<Rightarrow> string" where
  \<comment> \<open>\<open>a or b\<close> for an optional string \<open>a\<close>: \<open>None\<close> and \<open>""\<close> are falsy\<close>
  "str_or a b = (case a of None \<Rightarrow> b | Some s \<Rightarrow> if s = [] then b else s)"

definition is_word_char :: "char \<Rightarrow> bool" where
  \<comment> \<open>the regex class \<open>\w\<close>: \<open>str.isalnum\<close> or the underscore\<close>
  "is_word_char c \<longleftrightarrow>
     (let n = (of_char c :: int)
      in (48 \<le> n \<and> n \<le> 57) \<or> (65 \<le> n \<and> n \<le> 90) \<or> n = 95 \<or> (97 \<le> n \<and> n \<le> 122)
         \<or> n = 170 \<or> n = 178 \<or> n = 179 \<or> n = 181 \<or> n = 185 \<or> n = 186
         \<or> (188 \<le> n \<and> n \<le> 190) \<or> (192 \<le> n \<and> n \<le> 214) \<or> (216 \<le> n \<and> n \<le> 246)
         \<or> (248 \<le> n \<and> n \<le> 255))"

definition is_py_digit :: "char \<Rightarrow> bool" where
  \<comment> \<open>\<open>str.isdigit\<close> on one code point: 0-9 and the superscripts 1, 2, 3\<close>
  "is_py_digit c \<longleftrightarrow>
     (let n = (of_char c :: int) in (48 \<le> n \<and> n \<le> 57) \<or> n = 178 \<or> n = 179 \<or> n = 185)"

definition nat_of_digits :: "string \<Rightarrow> nat" where
  \<comment> \<open>the value of a string of ASCII digits\<close>
  "nat_of_digits ds = foldl (\<lambda>acc c. 10 * acc + (of_char c - 48)) 0 ds"

definition py_int :: "string \<Rightarrow> py_error + int" where
  \<comment> \<open>\<open>int(s)\<close> on a string that passed \<open>isdigit\<close>: a superscript digit raises\<close>
  "py_int s = (if s \<noteq> [] \<and> list_all is_ascii_digit s then Inr (int (nat_of_digits s))
               else Inl ValueError)"

definition year_of_date :: "string \<Rightarrow> py_error + int option" where
  \<comment> \<open>\<open>int(rd[:4]) if rd[:4].isdigit() else None\<close>\<close>
  "year_of_date rd =
     (let p = take 4 rd
      in if p \<noteq> [] \<and> list_all is_py_digit p
         then (case py_int p of Inl e \<Rightarrow> Inl e | Inr y \<Rightarrow> Inr (Some y))
         else Inr None)"

definition norm_tokens :: "string \<Rightarrow> string list" where
  \<comment> \<open>\<open>norm\<close> inside \<open>jaccard\<close>: lower-case, \<open>[^\w\s]\<close> to a space, collapse, strip,
      split at spaces, drop the empty tokens\<close>
  "norm_tokens s =
     filter (\<lambda>t. t \<noteq> [])
       (split_at (\<lambda>c. c = CHR '' '')
         (py_strip (collapse_ws
           (map (\<lambda>c. if is_word_char c \<or> is_space c then c else CHR '' '') (py_lower s)))))"

definition jaccard :: "string \<Rightarrow> string \<Rightarrow> rat" where
  \<comment> \<open>\<open>(len(A & B) / len(A | B)) if A and B else 0.0\<close>, the exact quotient; the sets as
      duplicate-free lists\<close>
  "jaccard a b =
     (let A = remdups (norm_tokens a); B = remdups (norm_tokens b)
      in if A \<noteq> [] \<and> B \<noteq> []
         then of_nat (length (filter (\<lambda>t. t \<in> set B) A)) / of_nat (length (remdups (A @ B)))
         else 0)"



definition year_score :: "rat \<Rightarrow> rat \<Rightarrow> int option \<Rightarrow> int option \<Rightarrow> rat" where
  \<comment> \<open>\<open>year_score\<close>; the arguments are the values for a difference of 1 and of 2.
      \<open>if want_year and year\<close>: \<open>None\<close> and 0 are falsy\<close>
  "year_score off1 off2 want_year year =
     (case (want_year, year) of
        (Some w, Some y) \<Rightarrow>
          if w \<noteq> 0 \<and> y \<noteq> 0
          then (let diff = \<bar>w - y\<bar>
                in if diff = 0 then 1 else if diff = 1 then off1 else if diff = 2 then off2 else 0)
          else 0
      | _ \<Rightarrow> 0)"



function bit_length :: "int \<Rightarrow> int" where
  \<comment> \<open>the number of binary digits of a positive integer\<close>
  "bit_length n = (if n \<le> 0 then 0 else 1 + bit_length (n div 2))"
  by pat_completeness auto
termination
  by (relation "measure nat") auto

declare bit_length.simps [simp del]

definition floor_log2 :: "int \<Rightarrow> int \<Rightarrow> int" where
  \<comment> \<open>the \<open>e\<close> with \<open>2^e \<le> a / q < 2^(e+1)\<close>, for positive \<open>a\<close> and \<open>q\<close>\<close>
  "floor_log2 a q =
     (let d = bit_length a - bit_length q
      in if (if 0 \<le> d then q * 2 ^ nat d \<le> a else q \<le> a * 2 ^ nat (- d)) then d else d - 1)"

definition round_half_even :: "int \<Rightarrow> int \<Rightarrow> int" where
  \<comment> \<open>the integer nearest to \<open>num / den\<close>, the even one of two equally near\<close>
  "round_half_even num den =
     (let f = num div den; r = num mod den
      in if 2 * r < den then f
         else if den < 2 * r then f + 1
         else if even f then f else f + 1)"

definition to_double :: "rat \<Rightarrow> rat" where
  \<comment> \<open>the double nearest to a rational, ties to even: 53 significant bits, and multiples of
      \<open>2^-1074\<close> near zero. Beyond the largest double the program has an infinity; the
      model keeps the finite value, which orders the same way against every score and
      gate.\<close>
  "to_double x =
     (if x = 0 then 0
      else
        (let p = fst (quotient_of x); q = snd (quotient_of x);
             a = \<bar>p\<bar>;
             k = max (floor_log2 a q - 52) (- 1074);
             n = (if 0 \<le> k then round_half_even a (q * 2 ^ nat k)
                  else round_half_even (a * 2 ^ nat (- k)) q)
         in of_int (sgn p * n) * (if 0 \<le> k then 2 ^ nat k else 1 / 2 ^ nat (- k))))"

definition dmul :: "rat \<Rightarrow> rat \<Rightarrow> rat" where
  \<comment> \<open>\<open>a * b\<close> on doubles\<close>
  "dmul a b = to_double (a * b)"

definition dadd :: "rat \<Rightarrow> rat \<Rightarrow> rat" where
  \<comment> \<open>\<open>a + b\<close> on doubles\<close>
  "dadd a b = to_double (a + b)"

definition ddiv :: "rat \<Rightarrow> rat \<Rightarrow> rat" where
  \<comment> \<open>\<open>a / b\<close> on doubles, for a divisor that is not zero\<close>
  "ddiv a b = to_double (a / b)"

definition jaccard_double :: "string \<Rightarrow> string \<Rightarrow> rat" where
  \<comment> \<open>\<open>jaccard\<close> as computed: the quotient of two ints is the nearest double\<close>
  "jaccard_double a b = to_double (jaccard a b)"

definition py_float :: "json_number \<Rightarrow> py_error + rat" where
  \<comment> \<open>\<open>float(x)\<close>: a real is the double Python read it as; an int is rounded to the nearest
      double, ties to even, and raises \<open>OverflowError\<close> when that is beyond the largest
      double, \<open>2^1024 - 2^971\<close>\<close>
  "py_float x =
     (case x of
        JInt n \<Rightarrow> if 2 ^ 1024 - 2 ^ 970 \<le> \<bar>n\<bar> then Inl OverflowError
                  else Inr (to_double (of_int n))
      | JReal r \<Rightarrow> Inr (to_double r))"

definition popularity_float :: "item \<Rightarrow> py_error + rat" where
  \<comment> \<open>\<open>float(c.get("popularity") or 0.0)\<close>: \<open>None\<close> and zero are falsy\<close>
  "popularity_float c =
     (case popularity c of
        None \<Rightarrow> Inr 0
      | Some p \<Rightarrow> if number_value p = 0 then Inr 0 else py_float p)"

definition pop_score_double :: "item \<Rightarrow> py_error + rat" where
  \<comment> \<open>\<open>pop = min(float(c.get("popularity") or 0.0) / 200.0, 0.5)\<close> as computed\<close>
  "pop_score_double c =
     (case popularity_float c of
        Inl e \<Rightarrow> Inl e
      | Inr f \<Rightarrow> Inr (min (ddiv f 200) (1 / 2)))"

definition year_score_double :: "rat \<Rightarrow> rat \<Rightarrow> int option \<Rightarrow> int option \<Rightarrow> rat" where
  \<comment> \<open>\<open>year_score\<close> as computed: the double of the literal chosen\<close>
  "year_score_double off1 off2 want_year year = to_double (year_score off1 off2 want_year year)"

definition movie_score_double :: "item \<Rightarrow> string \<Rightarrow> int option \<Rightarrow> py_error + rat" where
  \<comment> \<open>the loop body of \<open>choose_best_match\<close>:
      \<open>score = sim * 0.65 + year_score * 0.25 + pop * 0.10\<close>, summed from the left\<close>
  "movie_score_double c want_title want_year =
     (let t = str_or (title c) (str_or (original_title c) []);
          rd = str_or (release_date c) []
      in case year_of_date rd of
           Inl e \<Rightarrow> Inl e
         | Inr year \<Rightarrow>
             (case pop_score_double c of
                Inl e \<Rightarrow> Inl e
              | Inr pop \<Rightarrow>
                  Inr (dadd
                         (dadd (dmul (jaccard_double t want_title) (to_double (65 / 100)))
                               (dmul (year_score_double (7 / 10) (4 / 10) want_year year)
                                     (to_double (25 / 100))))
                         (dmul pop (to_double (10 / 100))))))"

definition tv_score_double :: "item \<Rightarrow> string \<Rightarrow> int option \<Rightarrow> py_error + rat" where
  \<comment> \<open>the loop body of \<open>choose_best_tv\<close>:
      \<open>score = sim * 0.72 + year_score * 0.18 + pop * 0.10\<close>, summed from the left\<close>
  "tv_score_double c want_title want_year =
     (let n = str_or (name c) (str_or (original_name c) []);
          fad = str_or (first_air_date c) []
      in case year_of_date fad of
           Inl e \<Rightarrow> Inl e
         | Inr year \<Rightarrow>
             (case pop_score_double c of
                Inl e \<Rightarrow> Inl e
              | Inr pop \<Rightarrow>
                  Inr (dadd
                         (dadd (dmul (jaccard_double n want_title) (to_double (72 / 100)))
                               (dmul (year_score_double (6 / 10) (3 / 10) want_year year)
                                     (to_double (18 / 100))))
                         (dmul pop (to_double (10 / 100))))))"

fun score_all :: "(item \<Rightarrow> py_error + rat) \<Rightarrow> item list \<Rightarrow> py_error + (rat \<times> item) list" where
  \<comment> \<open>\<open>for c in cands: ... scored.append((score, c))\<close>; an exception leaves the loop\<close>
  "score_all f [] = Inr []"
| "score_all f (c # cs) =
     (case f c of
        Inl e \<Rightarrow> Inl e
      | Inr sc \<Rightarrow> (case score_all f cs of Inl e \<Rightarrow> Inl e | Inr rest \<Rightarrow> Inr ((sc, c) # rest)))"

definition sort_desc :: "(rat \<times> item) list \<Rightarrow> (rat \<times> item) list" where
  \<comment> \<open>\<open>scored.sort(key=lambda x: x[0], reverse=True)\<close>: Python reverses, sorts stably and
      reverses again, so equal scores keep their order\<close>
  "sort_desc scored = rev (sort_key fst (rev scored))"

definition is_year_string :: "string \<Rightarrow> bool" where
  \<comment> \<open>\<open>re.fullmatch(r"(18(8|9)\d|19\d{2}|20\d{2})", s)\<close>\<close>
  "is_year_string s \<longleftrightarrow>
     length s = 4 \<and> list_all is_ascii_digit s
     \<and> (take 3 s = ''188'' \<or> take 3 s = ''189'' \<or> take 2 s = ''19'' \<or> take 2 s = ''20'')"

definition movie_gate :: "string \<Rightarrow> rat" where
  \<comment> \<open>\<open>gate = 0.20 if re.fullmatch(...) else 0.25\<close>, the doubles of the literals\<close>
  "movie_gate want_title =
     (if is_year_string (py_strip want_title) then to_double (20 / 100) else to_double (25 / 100))"

definition tv_gate :: rat where
  \<comment> \<open>the literal \<open>0.18\<close>\<close>
  "tv_gate = to_double (18 / 100)"

definition pick_top :: "rat \<Rightarrow> (rat \<times> item) list \<Rightarrow> item option" where
  \<comment> \<open>\<open>top_score, top = scored[0]\<close>; \<open>return top if top_score >= gate else None\<close>.
      The list is never empty here.\<close>
  "pick_top gate scored =
     (case sort_desc scored of
        [] \<Rightarrow> None
      | (top_score, top_item) # _ \<Rightarrow> if gate \<le> top_score then Some top_item else None)"

definition choose_best_match :: "item list \<Rightarrow> string \<Rightarrow> int option \<Rightarrow> py_error + item option" where
  "choose_best_match cands want_title want_year =
     (if cands = [] then Inr None
      else (case score_all (\<lambda>c. movie_score_double c want_title want_year) cands of
              Inl e \<Rightarrow> Inl e
            | Inr scored \<Rightarrow> Inr (pick_top (movie_gate want_title) scored)))"

definition choose_best_tv :: "item list \<Rightarrow> string \<Rightarrow> int option \<Rightarrow> py_error + item option" where
  "choose_best_tv cands want_title want_year =
     (if cands = [] then Inr None
      else (case score_all (\<lambda>c. tv_score_double c want_title want_year) cands of
              Inl e \<Rightarrow> Inl e
            | Inr scored \<Rightarrow> Inr (pick_top tv_gate scored)))"

definition blank_item :: item where
  "blank_item = \<lparr>item_id = 0, title = None, original_title = None, name = None,
                 original_name = None, release_date = None, first_air_date = None,
                 popularity = None, poster_path = None\<rparr>"

definition matrix_item :: item where
  "matrix_item = blank_item\<lparr>item_id := 603, title := Some ''The Matrix'',
                   release_date := Some ''1999-03-31'', popularity := Some (JInt 50)\<rparr>"

definition foo_item :: item where
  \<comment> \<open>a candidate one year off a year-titled query\<close>
  "foo_item = blank_item\<lparr>item_id := 1, title := Some ''Foo'',
                release_date := Some ''2013-05-01'', popularity := Some (JInt 50)\<rparr>"

definition third_item :: item where
  \<comment> \<open>a candidate sharing one of three words with the query \<open>Red Sun Rising\<close>\<close>
  "third_item = blank_item\<lparr>item_id := 2, title := Some ''Red'',
                  popularity := Some (JReal (6666666666666666 / 100000000000000))\<rparr>"

definition office_item :: item where
  "office_item = blank_item\<lparr>item_id := 2316, name := Some ''The Office'',
                   first_air_date := Some ''2005-03-24'', popularity := Some (JInt 100)\<rparr>"

definition matrix_ctx :: render_ctx where
  "matrix_ctx = empty_ctx\<lparr>ctx_n := Some ''The Matrix'', ctx_y := Some 1999,
                  ctx_ny := Some ''The Matrix (1999)''\<rparr>"

section \<open>Paths and \<open>ensure_unique_path\<close>\<close>

text \<open>
  A \<open>pathlib.Path\<close> is the list of its components; \<open>exists\<close> is the state of the
  file system at the time of the call.
\<close>

type_synonym path = "string list"

definition path_name :: "path \<Rightarrow> string" where
  \<comment> \<open>\<open>p.name\<close>\<close>
  "path_name p = (if p = [] then [] else last p)"

definition path_parent :: "path \<Rightarrow> path" where
  \<comment> \<open>\<open>p.parent\<close>\<close>
  "path_parent p = butlast p"

definition rfind_dot :: "string \<Rightarrow> nat option" where
  \<comment> \<open>\<open>name.rfind(".")\<close>, \<open>None\<close> for -1\<close>
  "rfind_dot s =
     (if CHR ''.'' \<in> set s
      then Some (length s - 1 - length (takeWhile (\<lambda>c. c \<noteq> CHR ''.'') (rev s)))
      else None)"

definition suffix_index :: "string \<Rightarrow> nat option" where
  \<comment> \<open>pathlib: the last dot starts the suffix when \<open>0 < i < len(name) - 1\<close>\<close>
  "suffix_index s =
     (case rfind_dot s of
        None \<Rightarrow> None
      | Some i \<Rightarrow> if 0 < i \<and> i + 1 < length s then Some i else None)"

definition path_suffix :: "path \<Rightarrow> string" where
  \<comment> \<open>\<open>p.suffix\<close>\<close>
  "path_suffix p = (case suffix_index (path_name p) of None \<Rightarrow> [] | Some i \<Rightarrow> drop i (path_name p))"

definition path_stem :: "path \<Rightarrow> string" where
  \<comment> \<open>\<open>p.stem\<close>\<close>
  "path_stem p = (case suffix_index (path_name p) of None \<Rightarrow> path_name p | Some i \<Rightarrow> take i (path_name p))"

definition numbered :: "path \<Rightarrow> string \<Rightarrow> string \<Rightarrow> nat \<Rightarrow> path" where
  \<comment> \<open>\<open>parent / f"{base} ({n}){ext}"\<close>\<close>
  "numbered parent base ext n = parent @ [base @ '' ('' @ digits_of_nat n @ '')'' @ ext]"

partial_function (option) ensure_loop ::
  "(path \<Rightarrow> bool) \<Rightarrow> path \<Rightarrow> string \<Rightarrow> string \<Rightarrow> nat \<Rightarrow> path option" where
  \<comment> \<open>\<open>while True: cand = ...; if not cand.exists(): return cand; n += 1\<close>\<close>
  "ensure_loop exists parent base ext n =
     (if \<not> exists (numbered parent base ext n) then Some (numbered parent base ext n)
      else ensure_loop exists parent base ext (n + 1))"

definition ensure_unique_path :: "(path \<Rightarrow> bool) \<Rightarrow> path \<Rightarrow> path option" where
  \<comment> \<open>\<open>None\<close> stands for a loop that never returns\<close>
  "ensure_unique_path exists dst =
     (if \<not> exists dst then Some dst
      else ensure_loop exists (path_parent dst) (path_stem dst) (path_suffix dst) 2)"

definition two_taken :: "path \<Rightarrow> bool" where
  "two_taken p \<longleftrightarrow> p \<in> {[''lib'', ''a.mkv''], [''lib'', ''a (2).mkv'']}"

section \<open>Trailer selection: \<open>pick_best_trailer\<close>, \<open>best_trailer_url\<close>\<close>

text \<open>
  A video entry is a JSON object; a key that is missing or null is \<open>None\<close>. The built-in
  \<open>hash\<close> of a \<open>str\<close> depends on the hash seed of the running process, so the model
  takes the hash function of the process as an argument.
\<close>

record video =
  v_site :: "string option"
  v_type :: "string option"
  v_name :: "string option"
  v_size :: "int option"
  v_official :: "bool option"
  v_iso_639_1 :: "string option"
  v_iso_3166_1 :: "string option"
  v_published_at :: "string option"
  v_key :: "string option"
  v_url :: "string option"

fun py_contains :: "string \<Rightarrow> string \<Rightarrow> bool" where
  \<comment> \<open>\<open>needle in s\<close>\<close>
  "py_contains needle [] = (needle = [])"
| "py_contains needle (c # cs) = (prefix needle (c # cs) \<or> py_contains needle cs)"

fun py_index :: "'a \<Rightarrow> 'a list \<Rightarrow> nat option" where
  \<comment> \<open>\<open>xs.index(x)\<close>, \<open>None\<close> for ValueError\<close>
  "py_index x [] = None"
| "py_index x (y # ys) = (if x = y then Some 0 else map_option Suc (py_index x ys))"

fun max_by :: "('a \<Rightarrow> rat) \<Rightarrow> 'a \<Rightarrow> 'a list \<Rightarrow> 'a" where
  \<comment> \<open>\<open>max(pool, key=score)\<close> on a non-empty pool, the best so far first: a later entry
      wins only with a strictly greater key\<close>
  "max_by f best [] = best"
| "max_by f best (v # vs) = max_by f (if f best < f v then v else best) vs"

definition YOUTUBE_WATCH :: string where
  "YOUTUBE_WATCH = ''https://www.youtube.com/watch?v=''"

definition norm_lang :: "string option \<Rightarrow> string" where
  \<comment> \<open>\<open>_norm_lang\<close>: \<open>(s or "").lower()\<close>\<close>
  "norm_lang s = py_lower (str_or s [])"

definition prefer_norm :: "string list \<Rightarrow> string list" where
  \<comment> \<open>\<open>[_norm_lang(x) for x in (prefer_langs or []) if x] or ["en-us", "en"]\<close>\<close>
  "prefer_norm prefer_langs =
     (let ps = map py_lower (filter (\<lambda>x. x \<noteq> []) prefer_langs)
      in if ps = [] then [''en-us'', ''en''] else ps)"

definition truthy_bool :: "bool option \<Rightarrow> bool" where
  "truthy_bool b = (case b of None \<Rightarrow> False | Some x \<Rightarrow> x)"

definition int_or_zero :: "int option \<Rightarrow> int" where
  \<comment> \<open>\<open>int(v.get("size") or 0)\<close>\<close>
  "int_or_zero i = (case i of None \<Rightarrow> 0 | Some x \<Rightarrow> x)"

definition lang_bonus :: "string list \<Rightarrow> string \<Rightarrow> rat" where
  \<comment> \<open>the \<open>if lang: ... else: s += 0.2\<close> block of \<open>score\<close>\<close>
  "lang_bonus pn lang =
     (if lang \<noteq> [] then
        (case py_index lang pn of
           Some idx \<Rightarrow> if idx = 0 then 2 else 1
         | None \<Rightarrow>
             if list_ex (\<lambda>p. (lang = ''en'' \<and> prefix ''en'' p) \<or> (p = ''en'' \<and> prefix ''en'' lang)) pn
             then 1 else 0)
      else 2 / 10)"

definition trailer_score :: "(string \<Rightarrow> int) \<Rightarrow> string list \<Rightarrow> video \<Rightarrow> rat" where
  \<comment> \<open>the inner function \<open>score\<close> of \<open>pick_best_trailer\<close>; \<open>pn\<close> is \<open>prefer_norm\<close>\<close>
  "trailer_score py_hash pn v =
     (let typ = py_lower (str_or (v_type v) []);
          site = py_lower (str_or (v_site v) []);
          nm = py_lower (str_or (v_name v) []);
          size = int_or_zero (v_size v);
          off = truthy_bool (v_official v);
          lang = norm_lang (v_iso_639_1 v);
          pub = str_or (v_published_at v) []
      in (if typ = ''trailer'' then 3 else if typ = ''teaser'' then 1 else 0)
         + (if off then 3 else 0)
         + (if site = ''youtube'' then 2 else 0)
         + (if 1080 \<le> size then 2 else if 720 \<le> size then 1 else 0)
         + (if py_contains ''official trailer'' nm then 2
            else if py_contains ''trailer'' nm then 1 else 0)
         + lang_bonus pn lang
         + of_int (py_hash pub mod 1000) / 1000 * (15 / 10))"

definition playable :: "video \<Rightarrow> bool" where
  \<comment> \<open>\<open>(v.get("site") or "").lower() == "youtube" and v.get("key")\<close>\<close>
  "playable v \<longleftrightarrow> py_lower (str_or (v_site v) []) = ''youtube'' \<and> str_or (v_key v) [] \<noteq> []"

definition pick_best_trailer ::
  "(string \<Rightarrow> int) \<Rightarrow> video list \<Rightarrow> string list \<Rightarrow> string option" where
  \<comment> \<open>\<open>pick_best_trailer\<close> of movie_tool.py\<close>
  "pick_best_trailer py_hash videos prefer_langs =
     (if videos = [] then None
      else
        (let pn = prefer_norm prefer_langs;
             yt = filter playable videos;
             pool = (if yt \<noteq> [] then yt else videos);
             best = max_by (trailer_score py_hash pn) (hd pool) (tl pool)
         in if playable best then Some (YOUTUBE_WATCH @ str_or (v_key best) []) else None))"

definition ascii_upper_char :: "char \<Rightarrow> char" where
  "ascii_upper_char c =
     (let n = (of_char c :: int)
      in if 97 \<le> n \<and> n \<le> 122
         then (case c of Char b0 b1 b2 b3 b4 b5 b6 b7 \<Rightarrow> Char b0 b1 b2 b3 b4 False b6 b7)
         else c)"

definition is_us_gb :: "string \<Rightarrow> bool" where
  \<comment> \<open>\<open>s.upper() in ("US", "GB")\<close>: below 256 only the ASCII letters have these capitals\<close>
  "is_us_gb s \<longleftrightarrow> map ascii_upper_char s \<in> {''US'', ''GB''}"

definition url_score :: "video \<Rightarrow> rat" where
  \<comment> \<open>the inner function \<open>score\<close> of \<open>best_trailer_url\<close>\<close>
  "url_score v =
     (if py_lower (str_or (v_site v) []) = ''youtube'' then 3 else 0)
     + (if py_lower (str_or (v_type v) []) = ''trailer'' then 2 else 0)
     + (if truthy_bool (v_official v) then 1 else 0)
     + (if is_us_gb (str_or (v_iso_3166_1 v) []) then 1 else 0)"

definition best_trailer_url :: "video list \<Rightarrow> string option" where
  \<comment> \<open>\<open>best_trailer_url\<close> of movie_tools.py\<close>
  "best_trailer_url video_list =
     (if video_list = [] then None
      else
        (let best = max_by url_score (hd video_list) (tl video_list)
         in if playable best then Some (''https://www.youtube.com/watch?v='' @ str_or (v_key best) [])
            else if str_or (v_url best) [] \<noteq> [] then Some (str_or (v_url best) [])
            else None))"

definition blank_video :: video where
  "blank_video = \<lparr>v_site = None, v_type = None, v_name = None, v_size = None,
                   v_official = None, v_iso_639_1 = None, v_iso_3166_1 = None,
                   v_published_at = None, v_key = None, v_url = None\<rparr>"

definition vimeo_video :: video where
  "vimeo_video = blank_video\<lparr>v_site := Some ''Vimeo'', v_type := Some ''Trailer'',
                   v_name := Some ''Official Trailer'', v_key := Some ''76979871''\<rparr>"

definition hosted_video :: video where
  "hosted_video = blank_video\<lparr>v_site := Some ''Dailymotion'', v_type := Some ''Trailer'',
                    v_official := Some True, v_key := Some ''x8k2f1'',
                    v_url := Some ''https://www.dailymotion.com/video/x8k2f1''\<rparr>"

definition trailer_2020 :: video where
  "trailer_2020 = blank_video\<lparr>v_site := Some ''YouTube'', v_type := Some ''Trailer'',
                    v_published_at := Some ''2020-01-01T00:00:00.000Z'', v_key := Some ''AAA''\<rparr>"

definition trailer_2021 :: video where
  "trailer_2021 = blank_video\<lparr>v_site := Some ''YouTube'', v_type := Some ''Trailer'',
                    v_published_at := Some ''2021-01-01T00:00:00.000Z'', v_key := Some ''BBB''\<rparr>"

definition hash_seed_a :: "string \<Rightarrow> int" where
  \<comment> \<open>the string hash of one process\<close>
  "hash_seed_a s = (if s = ''2020-01-01T00:00:00.000Z'' then 999 else 0)"

definition hash_seed_b :: "string \<Rightarrow> int" where
  \<comment> \<open>the string hash of another process\<close>
  "hash_seed_b s = (if s = ''2021-01-01T00:00:00.000Z'' then 999 else 0)"

definition zero_hash :: "string \<Rightarrow> int" where
  "zero_hash s = 0"

section \<open>File system effects: \<open>download_poster\<close>, \<open>download_trailer_with_ytdlp\<close>\<close>

text \<open>
  The file system is the set of its directories and the set of its files. The action
  journal and the console log are not part of it. Network reads are arguments: the catalog
  configuration, the response to the image request, and the external trailer fetcher.
\<close>

record fs_state =
  fs_dirs :: "path set"
  fs_files :: "path set"

datatype os_error = FileExistsError

definition mkdir_parents :: "path \<Rightarrow> fs_state \<Rightarrow> os_error + fs_state" where
  \<comment> \<open>\<open>p.mkdir(parents=True, exist_ok=True)\<close>: the directory and its missing ancestors are
      created; a file in the way raises\<close>
  "mkdir_parents p fs =
     (if list_ex (\<lambda>q. q \<in> fs_files fs) (tl (prefixes p)) then Inl FileExistsError
      else Inr (fs\<lparr>fs_dirs := fs_dirs fs \<union> set (tl (prefixes p))\<rparr>))"

record tmdb_config =
  secure_base_url :: string
  poster_sizes :: "string list"

record http_response =
  resp_ok :: bool
  resp_content_type :: string
  resp_length :: nat

definition build_poster_url :: "tmdb_config \<Rightarrow> string \<Rightarrow> string \<Rightarrow> string option" where
  \<comment> \<open>\<open>TMDB.build_poster_url\<close> of movie_tools.py\<close>
  "build_poster_url cfg poster want_size =
     (if poster = [] then None
      else
        (let sizes = (if poster_sizes cfg = [] then [''w500'', ''original''] else poster_sizes cfg);
             target = (if want_size \<in> set sizes then want_size else last sizes)
         in Some (secure_base_url cfg @ target @ poster)))"

definition download_poster ::
  "tmdb_config \<Rightarrow> http_response \<Rightarrow> item \<Rightarrow> path \<Rightarrow> bool \<Rightarrow> fs_state \<Rightarrow> os_error + fs_state" where
  \<comment> \<open>\<open>download_poster\<close> of movie_tools.py. \<open>out_dir.mkdir\<close> stands before the \<open>try\<close> and
      before \<open>if dry_run: return\<close>; what is raised inside the \<open>try\<close> is caught\<close>
  "download_poster cfg resp movie out_dir dry_run fs =
     (let pp = str_or (poster_path movie) []
      in if pp = [] then Inr fs
         else
           (case build_poster_url cfg pp ''w500'' of
              None \<Rightarrow> Inr fs
            | Some url \<Rightarrow>
                if url = [] then Inr fs
                else
                  (case mkdir_parents out_dir fs of
                     Inl e \<Rightarrow> Inl e
                   | Inr fs1 \<Rightarrow>
                       (let target = out_dir @ [sanitize_component (path_name out_dir) @ '' - poster.jpg'']
                        in if dry_run then Inr fs1
                           else if \<not> resp_ok resp then Inr fs1
                           else if \<not> py_contains ''image'' (resp_content_type resp) then Inr fs1
                           else if resp_length resp < 1024 then Inr fs1
                           else if target \<in> fs_dirs fs1 then Inr fs1
                           else Inr (fs1\<lparr>fs_files := insert target (fs_files fs1)\<rparr>)))))"

definition download_trailer_with_ytdlp ::
  "(string \<Rightarrow> path \<Rightarrow> fs_state \<Rightarrow> bool \<times> fs_state) \<Rightarrow> string \<Rightarrow> path \<Rightarrow> bool \<Rightarrow> fs_state
     \<Rightarrow> bool \<times> fs_state" where
  \<comment> \<open>\<open>download_trailer_with_ytdlp\<close>, the same opening in both files: inside the \<open>try\<close>,
      \<open>out_dir.mkdir\<close>, then \<open>if dry_run: return True\<close>, then the external fetcher\<close>
  "download_trailer_with_ytdlp fetcher url out_dir dry_run fs =
     (case mkdir_parents out_dir fs of
        Inl e \<Rightarrow> (False, fs)
      | Inr fs1 \<Rightarrow> if dry_run then (True, fs1) else fetcher url out_dir fs1)"

definition lib_fs :: fs_state where
  "lib_fs = \<lparr>fs_dirs = {[''lib'']}, fs_files = {[''lib'', ''The.Matrix.1999.mkv'']}\<rparr>"

definition poster_item :: item where
  "poster_item = matrix_item\<lparr>poster_path := Some ''/f89U3ADr1oiB1s9GkdPOEpXUk5H.jpg''\<rparr>"

section \<open>Episode tags: \<open>parse_filename_basic\<close>\<close>

fun re_search :: "(string \<Rightarrow> 'a option) \<Rightarrow> string \<Rightarrow> 'a option" where
  \<comment> \<open>\<open>re.search\<close>: the match at the leftmost position that has one; the argument matches
      at the start of a string\<close>
  "re_search m [] = m []"
| "re_search m (c # cs) = (case m (c # cs) of Some x \<Rightarrow> Some x | None \<Rightarrow> re_search m cs)"

definition is_tag_sep :: "char \<Rightarrow> bool" where
  \<comment> \<open>the class \<open>[ ._-]\<close>\<close>
  "is_tag_sep c \<longleftrightarrow> c = CHR '' '' \<or> c = CHR ''.'' \<or> c = CHR ''_'' \<or> c = CHR ''-''"

definition match_e_part :: "string \<Rightarrow> nat option" where
  \<comment> \<open>\<open>[Ee](\d{1,3})\<close> at the start of the string; the digits are greedy and end the
      pattern\<close>
  "match_e_part s =
     (case s of
        [] \<Rightarrow> None
      | c # r \<Rightarrow>
          if c = CHR ''E'' \<or> c = CHR ''e''
          then (let ds = takeWhile is_ascii_digit (take 3 r)
                in if ds = [] then None else Some (nat_of_digits ds))
          else None)"

definition match_sep_e :: "string \<Rightarrow> nat option" where
  \<comment> \<open>\<open>[ ._-]?[Ee](\d{1,3})\<close>: with the separator first, then without it\<close>
  "match_sep_e s =
     (case s of
        [] \<Rightarrow> None
      | c # r \<Rightarrow>
          if is_tag_sep c
          then (case match_e_part r of Some e \<Rightarrow> Some e | None \<Rightarrow> match_e_part s)
          else match_e_part s)"

definition match_sxe :: "string \<Rightarrow> (nat \<times> nat) option" where
  \<comment> \<open>\<open>[Ss](\d{1,2})[ ._-]?[Ee](\d{1,3})\<close> at the start of the string: two season digits
      first, then one\<close>
  "match_sxe s =
     (case s of
        [] \<Rightarrow> None
      | c # r \<Rightarrow>
          if c = CHR ''S'' \<or> c = CHR ''s''
          then (case (if length (takeWhile is_ascii_digit (take 2 r)) = 2
                      then map_option (Pair (nat_of_digits (take 2 r))) (match_sep_e (drop 2 r))
                      else None) of
                  Some x \<Rightarrow> Some x
                | None \<Rightarrow>
                    if takeWhile is_ascii_digit (take 1 r) \<noteq> []
                    then map_option (Pair (nat_of_digits (take 1 r))) (match_sep_e (drop 1 r))
                    else None)
          else None)"

definition match_x_part :: "string \<Rightarrow> nat option" where
  \<comment> \<open>\<open>x(\d{1,2})\<close> at the start of the string\<close>
  "match_x_part s =
     (case s of
        [] \<Rightarrow> None
      | c # r \<Rightarrow>
          if c = CHR ''x''
          then (let ds = takeWhile is_ascii_digit (take 2 r)
                in if ds = [] then None else Some (nat_of_digits ds))
          else None)"

definition match_nxm :: "string \<Rightarrow> (nat \<times> nat) option" where
  \<comment> \<open>\<open>(\d{1,2})x(\d{1,2})\<close> at the start of the string: two season digits first, then
      one\<close>
  "match_nxm s =
     (case (if length (takeWhile is_ascii_digit (take 2 s)) = 2
            then map_option (Pair (nat_of_digits (take 2 s))) (match_x_part (drop 2 s))
            else None) of
        Some x \<Rightarrow> Some x
      | None \<Rightarrow>
          if takeWhile is_ascii_digit (take 1 s) \<noteq> []
          then map_option (Pair (nat_of_digits (take 1 s))) (match_x_part (drop 1 s))
          else None)"

definition parse_episode_tag :: "string \<Rightarrow> (nat \<times> nat) option" where
  \<comment> \<open>the \<open>s, e\<close> part of \<open>parse_filename_basic\<close>, on \<open>base\<close>: \<open>m1\<close>, else \<open>m2\<close>, else
      \<open>None\<close> for both\<close>
  "parse_episode_tag base =
     (case re_search match_sxe base of
        Some p \<Rightarrow> Some p
      | None \<Rightarrow> re_search match_nxm base)"


fun sxe_free :: "string \<Rightarrow> bool" where
  \<comment> \<open>no \<open>S\<close> or \<open>s\<close> stands immediately before a digit\<close>
  "sxe_free (a # b # cs) \<longleftrightarrow>
     \<not> ((a = CHR ''S'' \<or> a = CHR ''s'') \<and> is_ascii_digit b) \<and> sxe_free (b # cs)"
| "sxe_free _ \<longleftrightarrow> True"

fun nxm_free :: "string \<Rightarrow> bool" where
  \<comment> \<open>no \<open>x\<close> stands immediately after a digit\<close>
  "nxm_free (a # b # cs) \<longleftrightarrow> \<not> (is_ascii_digit a \<and> b = CHR ''x'') \<and> nxm_free (b # cs)"
| "nxm_free _ \<longleftrightarrow> True"

definition all_digits :: "string \<Rightarrow> bool" where
  "all_digits ds \<longleftrightarrow> list_all is_ascii_digit ds"

definition ends_tag :: "nat \<Rightarrow> string \<Rightarrow> string \<Rightarrow> bool" where
  \<comment> \<open>the digits \<open>de\<close> fill the \<open>k\<close> digits of the pattern, or no digit follows them\<close>
  "ends_tag k de post \<longleftrightarrow> length de = k \<or> post = [] \<or> \<not> is_ascii_digit (hd post)"

section \<open>Regular expressions\<close>

text \<open>
  A pattern is a backtracking matcher, as in Python's \<open>re\<close>: applied at a position it
  yields the ways to match there in the order the engine tries them, and the first one is
  the match. A position is the character before it (for \<open>\b\<close> and look-behind) and the
  rest of the string.
\<close>

type_synonym rstate = "char option \<times> string"

type_synonym matcher = "rstate \<Rightarrow> rstate list"

definition advance :: "nat \<Rightarrow> rstate \<Rightarrow> rstate" where
  \<comment> \<open>the position \<open>k\<close> characters on\<close>
  "advance k st = (if k = 0 then st else (Some (snd st ! (k - 1)), drop k (snd st)))"

definition cls :: "(char \<Rightarrow> bool) \<Rightarrow> matcher" where
  \<comment> \<open>one character of a class\<close>
  "cls P st = (case snd st of [] \<Rightarrow> [] | c # cs \<Rightarrow> if P c then [(Some c, cs)] else [])"

definition lit :: "char \<Rightarrow> matcher" where
  "lit c st = cls (\<lambda>x. x = c) st"

definition one_of :: "string \<Rightarrow> matcher" where
  \<comment> \<open>a class \<open>[...]\<close>\<close>
  "one_of cs st = cls (\<lambda>x. x \<in> set cs) st"

definition ci :: "char \<Rightarrow> matcher" where
  \<comment> \<open>a lower-case letter, or a character without case, under \<open>re.IGNORECASE\<close>\<close>
  "ci c st = cls (\<lambda>x. py_lower_char x = c) st"

definition ci_one_of :: "string \<Rightarrow> matcher" where
  \<comment> \<open>a class of such characters under \<open>re.IGNORECASE\<close>\<close>
  "ci_one_of cs st = cls (\<lambda>x. py_lower_char x \<in> set cs) st"

definition digit :: matcher where
  \<comment> \<open>\<open>\d\<close>\<close>
  "digit st = cls is_ascii_digit st"

fun seqs :: "matcher list \<Rightarrow> matcher" where
  \<comment> \<open>concatenation: every way to go on after every way to match the first\<close>
  "seqs [] st = [st]"
| "seqs (m # ms) st = concat (map (seqs ms) (m st))"

fun alts :: "matcher list \<Rightarrow> matcher" where
  \<comment> \<open>\<open>a|b|...\<close>: the alternatives in their order\<close>
  "alts [] st = []"
| "alts (m # ms) st = m st @ alts ms st"

definition opt :: "matcher \<Rightarrow> matcher" where
  \<comment> \<open>\<open>r?\<close>: with it first, then without\<close>
  "opt m st = m st @ [st]"

fun ci_str :: "string \<Rightarrow> matcher" where
  \<comment> \<open>a string of such characters under \<open>re.IGNORECASE\<close>\<close>
  "ci_str [] st = [st]"
| "ci_str (c # cs) st = concat (map (ci_str cs) (ci c st))"

fun lit_str :: "string \<Rightarrow> matcher" where
  "lit_str [] st = [st]"
| "lit_str (c # cs) st = concat (map (lit_str cs) (lit c st))"

definition rep :: "nat \<Rightarrow> nat option \<Rightarrow> (char \<Rightarrow> bool) \<Rightarrow> matcher" where
  \<comment> \<open>greedy \<open>{lo,hi}\<close> of a class, \<open>None\<close> for no upper bound: the longest run first\<close>
  "rep lo hi P st =
     (let n = length (takeWhile P (snd st));
          kmax = (case hi of None \<Rightarrow> n | Some h \<Rightarrow> min h n)
      in map (\<lambda>k. advance k st) (rev [lo..<Suc kmax]))"

definition lazy_star :: "(char \<Rightarrow> bool) \<Rightarrow> matcher" where
  \<comment> \<open>lazy \<open>*?\<close> of a class: the shortest run first\<close>
  "lazy_star P st = map (\<lambda>k. advance k st) [0..<Suc (length (takeWhile P (snd st)))]"

definition digits1 :: matcher where
  \<comment> \<open>\<open>\d+\<close>\<close>
  "digits1 st = rep 1 None is_ascii_digit st"

definition word_before :: "rstate \<Rightarrow> bool" where
  "word_before st = (case fst st of None \<Rightarrow> False | Some c \<Rightarrow> is_word_char c)"

definition word_after :: "rstate \<Rightarrow> bool" where
  "word_after st = (case snd st of [] \<Rightarrow> False | c # _ \<Rightarrow> is_word_char c)"

definition wordb :: matcher where
  \<comment> \<open>\<open>\b\<close>\<close>
  "wordb st = (if word_before st \<noteq> word_after st then [st] else [])"

definition not_behind :: "(char \<Rightarrow> bool) \<Rightarrow> matcher" where
  \<comment> \<open>\<open>(?<!c)\<close> for a class\<close>
  "not_behind P st = (case fst st of None \<Rightarrow> [st] | Some c \<Rightarrow> if P c then [] else [st])"

definition not_ahead :: "(char \<Rightarrow> bool) \<Rightarrow> matcher" where
  \<comment> \<open>\<open>(?!c)\<close> for a class\<close>
  "not_ahead P st = (case snd st of [] \<Rightarrow> [st] | c # _ \<Rightarrow> if P c then [] else [st])"

definition word :: "matcher list \<Rightarrow> matcher" where
  \<comment> \<open>\<open>\b(?:a|b|...)\b\<close>; without a boundary at the position no alternative is tried\<close>
  "word ms st = (if word_before st \<noteq> word_after st then concat (map wordb (alts ms st)) else [])"

definition match_len :: "matcher \<Rightarrow> char option \<Rightarrow> string \<Rightarrow> nat option" where
  \<comment> \<open>the length of the match at this position\<close>
  "match_len m prev s =
     (case m (prev, s) of [] \<Rightarrow> None | st # _ \<Rightarrow> Some (length s - length (snd st)))"

function re_sub :: "matcher \<Rightarrow> string \<Rightarrow> char option \<Rightarrow> string \<Rightarrow> string" where
  \<comment> \<open>\<open>re.sub(r, repl, s)\<close>, scanning from a position whose previous character is given\<close>
  "re_sub m repl prev [] = (case match_len m prev [] of None \<Rightarrow> [] | Some _ \<Rightarrow> repl)"
| "re_sub m repl prev (c # cs) =
     (case match_len m prev (c # cs) of
        None \<Rightarrow> c # re_sub m repl (Some c) cs
      | Some k \<Rightarrow>
          if k = 0 then repl @ c # re_sub m repl (Some c) cs
          else repl @ re_sub m repl (Some ((c # cs) ! (k - 1))) (drop k (c # cs)))"
  by pat_completeness auto
termination
  by (relation "measure (\<lambda>(m, repl, prev, s). length s)") auto

function re_findall :: "matcher \<Rightarrow> char option \<Rightarrow> string \<Rightarrow> string list" where
  \<comment> \<open>the matched texts of \<open>re.finditer(r, s)\<close>\<close>
  "re_findall m prev [] = (case match_len m prev [] of None \<Rightarrow> [] | Some _ \<Rightarrow> [[]])"
| "re_findall m prev (c # cs) =
     (case match_len m prev (c # cs) of
        None \<Rightarrow> re_findall m (Some c) cs
      | Some k \<Rightarrow>
          if k = 0 then [] # re_findall m (Some c) cs
          else take k (c # cs) # re_findall m (Some ((c # cs) ! (k - 1))) (drop k (c # cs)))"
  by pat_completeness auto
termination
  by (relation "measure (\<lambda>(m, prev, s). length s)") auto

fun re_first :: "matcher \<Rightarrow> char option \<Rightarrow> string \<Rightarrow> string option" where
  \<comment> \<open>\<open>re.search(r, s)\<close>: the text of the leftmost match\<close>
  "re_first m prev [] = (case match_len m prev [] of None \<Rightarrow> None | Some _ \<Rightarrow> Some [])"
| "re_first m prev (c # cs) =
     (case match_len m prev (c # cs) of
        None \<Rightarrow> re_first m (Some c) cs
      | Some k \<Rightarrow> Some (take k (c # cs)))"

definition re_found :: "matcher \<Rightarrow> string \<Rightarrow> bool" where
  \<comment> \<open>\<open>bool(re.search(r, s))\<close>\<close>
  "re_found m s \<longleftrightarrow> re_first m None s \<noteq> None"

section \<open>Title cleaning: \<open>split_stem_year\<close>, \<open>normalize_show_hint\<close>, \<open>parse_filename_basic\<close>\<close>

definition dot_or_underscore :: "char \<Rightarrow> bool" where
  "dot_or_underscore c \<longleftrightarrow> c = CHR ''.'' \<or> c = CHR ''_''"

definition dots_run :: matcher where
  \<comment> \<open>\<open>[._]+\<close>\<close>
  "dots_run st = rep 1 None dot_or_underscore st"

definition dots_to_space :: "string \<Rightarrow> string" where
  \<comment> \<open>\<open>re.sub(r"[._]+", " ", s)\<close>\<close>
  "dots_to_space s = re_sub dots_run '' '' None s"

definition space_or_dash :: "char \<Rightarrow> bool" where
  \<comment> \<open>the class \<open>[\s\-]\<close>\<close>
  "space_or_dash c \<longleftrightarrow> is_space c \<or> c = CHR ''-''"

definition not_newline :: "char \<Rightarrow> bool" where
  \<comment> \<open>the dot of a pattern\<close>
  "not_newline c \<longleftrightarrow> c \<noteq> CHR 0x0A"

definition noise_resolution :: matcher where
  \<comment> \<open>\<open>\b(?:480p|720p|1080p|2160p|4k|8k)\b\<close>\<close>
  "noise_resolution st =
     word [ci_str ''480p'', ci_str ''720p'', ci_str ''1080p'', ci_str ''2160p'', ci_str ''4k'',
           ci_str ''8k''] st"

definition noise_hdr :: matcher where
  \<comment> \<open>\<open>\b(?:hdr10|dolby[\s\-]?vision|dv|hdr|sdr)\b\<close>\<close>
  "noise_hdr st =
     word [ci_str ''hdr10'', seqs [ci_str ''dolby'', opt (cls space_or_dash), ci_str ''vision''],
           ci_str ''dv'', ci_str ''hdr'', ci_str ''sdr''] st"

definition noise_source :: matcher where
  \<comment> \<open>\<open>\b(?:webrip|web\-?dl|bluray|b[dr]rip|hdtv|dvdrip|dvdscr|cam|h?dcam|r[56])\b\<close>\<close>
  "noise_source st =
     word [ci_str ''webrip'', seqs [ci_str ''web'', opt (lit CHR ''-''), ci_str ''dl''],
           ci_str ''bluray'', seqs [ci CHR ''b'', ci_one_of ''dr'', ci_str ''rip''],
           ci_str ''hdtv'', ci_str ''dvdrip'', ci_str ''dvdscr'', ci_str ''cam'',
           seqs [opt (ci CHR ''h''), ci_str ''dcam''], seqs [ci CHR ''r'', one_of ''56'']] st"

definition noise_codec :: matcher where
  \<comment> \<open>\<open>\b(?:x264|x265|h264|h265|hevc|av1|xvid|divx)\b\<close>\<close>
  "noise_codec st =
     word [ci_str ''x264'', ci_str ''x265'', ci_str ''h264'', ci_str ''h265'', ci_str ''hevc'',
           ci_str ''av1'', ci_str ''xvid'', ci_str ''divx''] st"

definition noise_group :: matcher where
  \<comment> \<open>\<open>\b(?:yts|yify|rarbg|evo|etrg|spark[s]?|amiable|ntb|tge|ctrlhd|fg[t]?|galaxyrg)\b\<close>\<close>
  "noise_group st =
     word [ci_str ''yts'', ci_str ''yify'', ci_str ''rarbg'', ci_str ''evo'', ci_str ''etrg'',
           seqs [ci_str ''spark'', opt (ci CHR ''s'')], ci_str ''amiable'', ci_str ''ntb'',
           ci_str ''tge'', ci_str ''ctrlhd'', seqs [ci_str ''fg'', opt (ci CHR ''t'')],
           ci_str ''galaxyrg''] st"

definition noise_edition :: matcher where
  \<comment> \<open>\<open>\b(?:proper|real|repack|extended|unrated|directors\.? cut|remastered|imax)\b\<close>\<close>
  "noise_edition st =
     word [ci_str ''proper'', ci_str ''real'', ci_str ''repack'', ci_str ''extended'',
           ci_str ''unrated'', seqs [ci_str ''directors'', opt (lit CHR ''.''), ci_str '' cut''],
           ci_str ''remastered'', ci_str ''imax''] st"

definition noise_dub :: matcher where
  \<comment> \<open>\<open>\b(?:multi(?:lang)?|dubbed?|subbed?)\b\<close>\<close>
  "noise_dub st =
     word [seqs [ci_str ''multi'', opt (ci_str ''lang'')],
           seqs [ci_str ''dubbe'', opt (ci CHR ''d'')],
           seqs [ci_str ''subbe'', opt (ci CHR ''d'')]] st"

definition noise_audio :: matcher where
  \<comment> \<open>\<open>\b(?:aac|dts(?:\-hd)?|truehd|atmos|ddp?[\- ]?\d\.\d)\b\<close>\<close>
  "noise_audio st =
     word [ci_str ''aac'', seqs [ci_str ''dts'', opt (ci_str ''-hd'')], ci_str ''truehd'',
           ci_str ''atmos'',
           seqs [ci_str ''dd'', opt (ci CHR ''p''), opt (one_of ''- ''), digit, lit CHR ''.'',
                 digit]] st"

definition noise_sample :: matcher where
  \<comment> \<open>\<open>\b(?:sample)\b\<close>\<close>
  "noise_sample st = word [ci_str ''sample''] st"

definition noise_brackets :: matcher where
  \<comment> \<open>\<open>\[(?:.*?)\]|\((?:sample)\)\<close>\<close>
  "noise_brackets st =
     alts [seqs [lit CHR ''['', lazy_star not_newline, lit CHR '']''],
           seqs [lit CHR ''('', ci_str ''sample'', lit CHR '')'']] st"

definition NOISE_PATTERNS :: "matcher list" where
  "NOISE_PATTERNS =
     [noise_resolution, noise_hdr, noise_source, noise_codec, noise_group, noise_edition,
      noise_dub, noise_audio, noise_sample, noise_brackets]"

definition year_token :: matcher where
  \<comment> \<open>\<open>(?<!\d)((18(8|9)\d|19\d{2}|20\d{2}))(?!\d)\<close>\<close>
  "year_token st =
     seqs [not_behind is_ascii_digit,
           alts [seqs [lit_str ''18'', one_of ''89'', digit],
                 seqs [lit_str ''19'', digit, digit],
                 seqs [lit_str ''20'', digit, digit]],
           not_ahead is_ascii_digit] st"

fun py_rfind :: "string \<Rightarrow> string \<Rightarrow> nat option" where
  \<comment> \<open>\<open>s.rfind(sub)\<close>, \<open>None\<close> for -1\<close>
  "py_rfind sub [] = (if sub = [] then Some 0 else None)"
| "py_rfind sub (c # cs) =
     (case py_rfind sub cs of
        Some i \<Rightarrow> Some (Suc i)
      | None \<Rightarrow> if prefix sub (c # cs) then Some 0 else None)"

definition title_strip :: "char \<Rightarrow> bool" where
  \<comment> \<open>the characters of \<open>strip(" -._()[]{}")\<close>\<close>
  "title_strip c \<longleftrightarrow> c \<in> set '' -._()[]{}''"

definition split_stem_year :: "string \<Rightarrow> string \<times> int option" where
  "split_stem_year stem =
     (let s0 = dots_to_space stem;
          s1 = foldl (\<lambda>s pat. re_sub pat '' '' None s) s0 NOISE_PATTERNS;
          s = py_strip (collapse_ws s1);
          year_match = re_findall year_token None s;
          year = (if year_match = [] then None else Some (int (nat_of_digits (last year_match))));
          ttl = (case year of
                   None \<Rightarrow> s
                 | Some y \<Rightarrow>
                     if y = 0 then s
                     else (case py_rfind (py_str_int y) s of
                             None \<Rightarrow> s
                           | Some idx \<Rightarrow> py_strip (py_strip_chars title_strip (take idx s))))
      in (if ttl \<noteq> [] then ttl else stem, year))"

definition not_close_bracket :: "char \<Rightarrow> bool" where
  \<comment> \<open>the class \<open>[^)\]]\<close>\<close>
  "not_close_bracket c \<longleftrightarrow> c \<noteq> CHR '')'' \<and> c \<noteq> CHR '']''"

definition short_bracket :: matcher where
  \<comment> \<open>\<open>[\(\[][^)\]]{0,12}[\)\]]\<close>\<close>
  "short_bracket st = seqs [one_of ''(['', rep 0 (Some 12) not_close_bracket, one_of '')]''] st"

definition junk :: matcher where
  \<comment> \<open>\<open>\b(1080p|2160p|720p|4k|webrip|web[- ]?dl|bluray|b[dr]rip|hdtv|x26[45]|h26[45]|hevc|av1|
      hdr10?|dv|sdr|multi|dubbed|subbed)\b\<close> with \<open>re.I\<close>\<close>
  "junk st =
     word [ci_str ''1080p'', ci_str ''2160p'', ci_str ''720p'', ci_str ''4k'', ci_str ''webrip'',
           seqs [ci_str ''web'', opt (one_of ''- ''), ci_str ''dl''], ci_str ''bluray'',
           seqs [ci CHR ''b'', ci_one_of ''dr'', ci_str ''rip''], ci_str ''hdtv'',
           seqs [ci_str ''x26'', one_of ''45''], seqs [ci_str ''h26'', one_of ''45''],
           ci_str ''hevc'', ci_str ''av1'', seqs [ci_str ''hdr1'', opt (lit CHR ''0'')],
           ci_str ''dv'', ci_str ''sdr'', ci_str ''multi'', ci_str ''dubbed'', ci_str ''subbed''] st"

definition normalize_show_hint :: "string \<Rightarrow> string" where
  "normalize_show_hint txt =
     (let s1 = dots_to_space txt;
          s2 = re_sub short_bracket '' '' None s1;
          s3 = re_sub junk '' '' None s2
      in py_strip (collapse_ws s3))"

definition slug_illegal :: "char \<Rightarrow> bool" where
  \<comment> \<open>the class \<open>[\\/:\*\?\"<>\|]\<close>\<close>
  "slug_illegal c \<longleftrightarrow>
     c \<in> set [CHR 0x5C, CHR ''/'', CHR '':'', CHR ''*'', CHR ''?'', CHR 0x22, CHR ''<'', CHR ''>'',
              CHR ''|'']"

definition slugify :: "string \<Rightarrow> string" where
  "slugify text =
     (let t = py_strip (collapse_ws (filter (\<lambda>c. \<not> slug_illegal c) text))
      in if t = [] then ''Unknown'' else t)"

definition splitext_root :: "string \<Rightarrow> string" where
  \<comment> \<open>\<open>os.path.splitext(name)[0]\<close> for a name without directory: the last dot starts the
      extension unless only dots stand before it\<close>
  "splitext_root nm =
     (case rfind_dot nm of
        None \<Rightarrow> nm
      | Some i \<Rightarrow> if list_ex (\<lambda>c. c \<noteq> CHR ''.'') (take i nm) then take i nm else nm)"

definition cleaned_marker :: matcher where
  \<comment> \<open>\<open>\b(S\d+E\d+|\d+x\d+|(19|20)\d{2}|480p|720p|1080p|2160p|WEB[-.]DL|BluRay|HDR|x264|x265)\b.*\<close>
      with \<open>re.I\<close>\<close>
  "cleaned_marker st =
     seqs [word [seqs [ci CHR ''s'', digits1, ci CHR ''e'', digits1],
                 seqs [digits1, ci CHR ''x'', digits1],
                 seqs [alts [lit_str ''19'', lit_str ''20''], digit, digit],
                 ci_str ''480p'', ci_str ''720p'', ci_str ''1080p'', ci_str ''2160p'',
                 seqs [ci_str ''web'', one_of ''-.'', ci_str ''dl''],
                 ci_str ''bluray'', ci_str ''hdr'', ci_str ''x264'', ci_str ''x265''],
           rep 0 None not_newline] st"

definition year_word :: matcher where
  \<comment> \<open>\<open>\b(19|20)\d{2}\b\<close>\<close>
  "year_word st = word [seqs [alts [lit_str ''19'', lit_str ''20''], digit, digit]] st"

definition parse_filename_basic :: "path \<Rightarrow> string \<times> string option \<times> (nat \<times> nat) option" where
  \<comment> \<open>the argument is the path whose \<open>str\<close> the callers pass; \<open>os.path.basename\<close> is its
      last component. The season and the episode are one optional pair. movie_tools.py
      calls \<open>slugify\<close> for the title; movie_tool.py has the two substitutions of
      \<open>slugify\<close> in place, with the same character class.\<close>
  "parse_filename_basic p =
     (let base = splitext_root (path_name p);
          year = re_first year_word None base;
          cleaned = re_sub cleaned_marker [] None base
      in (slugify cleaned, year, parse_episode_tag base))"

definition safe_int :: "string option \<Rightarrow> int option" where
  \<comment> \<open>\<open>_safe_int\<close>: \<open>int(txt) if txt and str(txt).isdigit() else None\<close>, on the year text of
      \<open>parse_filename_basic\<close>, which holds ASCII digits only\<close>
  "safe_int txt =
     (case txt of
        None \<Rightarrow> None
      | Some t \<Rightarrow> if t \<noteq> [] \<and> list_all is_ascii_digit t then Some (int (nat_of_digits t)) else None)"

section \<open>Series fallback chain: \<open>try_tv_match_with_fallbacks\<close>\<close>

text \<open>
  Both files have the resolver. They differ in two places: the pattern of
  \<open>season_folder_parent\<close>, and a failed catalog request, which movie_tools.py takes for an
  empty result and movie_tool.py lets propagate. The catalog search is an argument: the
  result list of a query text and an optional year, or the error of the request.
\<close>

type_synonym cand = "string \<times> int option"

type_synonym catalog = "string \<Rightarrow> int option \<Rightarrow> py_error + item list"

definition season_words :: matcher where
  \<comment> \<open>movie_tools.py: \<open>(?i)\bseason\b|\bseizoen\b|saison|staffel|temporada\<close>\<close>
  "season_words st =
     alts [word [ci_str ''season''], word [ci_str ''seizoen''],
           ci_str ''saison'', ci_str ''staffel'', ci_str ''temporada''] st"

definition season_words_tool :: matcher where
  \<comment> \<open>movie_tool.py: \<open>(?i)\bseason\b|\bseizoen\b\<close>\<close>
  "season_words_tool st = alts [word [ci_str ''season''], word [ci_str ''seizoen'']] st"

definition season_parent_by :: "matcher \<Rightarrow> path \<Rightarrow> path option" where
  \<comment> \<open>the body both files share: \<open>p = file_path.parent\<close>;
      \<open>if p and re.search(pattern, p.name): return p.parent\<close>; \<open>return None\<close>\<close>
  "season_parent_by pat file_path =
     (let p = path_parent file_path
      in if re_found pat (path_name p) then Some (path_parent p) else None)"

definition season_folder_parent :: "path \<Rightarrow> path option" where
  \<comment> \<open>\<open>season_folder_parent\<close> of movie_tools.py\<close>
  "season_folder_parent file_path = season_parent_by season_words file_path"

definition season_folder_parent_tool :: "path \<Rightarrow> path option" where
  \<comment> \<open>\<open>season_folder_parent\<close> of movie_tool.py\<close>
  "season_folder_parent_tool file_path = season_parent_by season_words_tool file_path"

definition has_letter :: "string \<Rightarrow> bool" where
  \<comment> \<open>\<open>re.search(r"[A-Za-z]", s)\<close>\<close>
  "has_letter s \<longleftrightarrow>
     list_ex (\<lambda>c. let n = (of_char c :: int) in (65 \<le> n \<and> n \<le> 90) \<or> (97 \<le> n \<and> n \<le> 122)) s"

definition parent_chain :: "(path \<Rightarrow> path option) \<Rightarrow> path \<Rightarrow> path list" where
  \<comment> \<open>\<open>sfp = season_folder_parent(file_path)\<close>; \<open>parent_chain = [sfp] if sfp else []\<close>;
      \<open>parent_chain += [file_path.parent, file_path.parent.parent]\<close>. The first argument
      is the file's \<open>season_folder_parent\<close>.\<close>
  "parent_chain sfp file_path =
     (case sfp file_path of None \<Rightarrow> [] | Some p \<Rightarrow> [p])
     @ [path_parent file_path, path_parent (path_parent file_path)]"

fun dir_cands :: "path \<Rightarrow> path list \<Rightarrow> cand list" where
  \<comment> \<open>\<open>for parent in parent_chain: ...\<close>\<close>
  "dir_cands file_path [] = []"
| "dir_cands file_path (parent # rest) =
     (if parent \<noteq> file_path \<and> path_name parent \<noteq> []
      then (let ty = split_stem_year (path_name parent);
                t = normalize_show_hint (fst ty)
            in if t \<noteq> [] \<and> has_letter t then [(t, snd ty)] else [])
      else [])
     @ dir_cands file_path rest"

definition forced_candidate :: "string option \<Rightarrow> int option \<Rightarrow> cand list" where
  \<comment> \<open>\<open>if force_show: cands.append((normalize_show_hint(force_show), force_year))\<close>\<close>
  "forced_candidate force_show force_year =
     (if str_or force_show [] \<noteq> [] then [(normalize_show_hint (str_or force_show []), force_year)]
      else [])"

definition parsed_candidate :: "path \<Rightarrow> cand list" where
  \<comment> \<open>the candidate of \<open>parse_filename_basic(str(file_path))\<close>\<close>
  "parsed_candidate file_path =
     (let parsed = parse_filename_basic file_path
      in if fst parsed \<noteq> [] \<and> has_letter (fst parsed)
         then [(normalize_show_hint (fst parsed), safe_int (fst (snd parsed)))] else [])"

definition guess_candidate :: "string \<Rightarrow> int option \<Rightarrow> cand list" where
  \<comment> \<open>the candidate of \<open>title_guess\<close> and \<open>year_guess\<close>\<close>
  "guess_candidate title_guess year_guess =
     (if title_guess \<noteq> [] \<and> has_letter title_guess
      then [(normalize_show_hint title_guess, year_guess)] else [])"

definition raw_candidates ::
  "(path \<Rightarrow> path option) \<Rightarrow> string option \<Rightarrow> int option \<Rightarrow> path \<Rightarrow> string \<Rightarrow> int option
     \<Rightarrow> cand list" where
  \<comment> \<open>the list \<open>cands\<close> before the de-duplication\<close>
  "raw_candidates sfp force_show force_year file_path title_guess year_guess =
     forced_candidate force_show force_year
     @ parsed_candidate file_path
     @ guess_candidate title_guess year_guess
     @ dir_cands file_path (parent_chain sfp file_path)"

fun uniq_loop :: "string list \<Rightarrow> cand list \<Rightarrow> cand list" where
  \<comment> \<open>\<open>for t, y in cands: key = t.lower(); if key not in seen: ...\<close>\<close>
  "uniq_loop seen [] = []"
| "uniq_loop seen (c # cs) =
     (if py_lower (fst c) \<in> set seen then uniq_loop seen cs
      else c # uniq_loop (py_lower (fst c) # seen) cs)"

definition fallback_candidates ::
  "(path \<Rightarrow> path option) \<Rightarrow> string option \<Rightarrow> int option \<Rightarrow> path \<Rightarrow> string \<Rightarrow> int option
     \<Rightarrow> cand list" where
  \<comment> \<open>the list \<open>uniq\<close>\<close>
  "fallback_candidates sfp force_show force_year file_path title_guess year_guess =
     uniq_loop [] (raw_candidates sfp force_show force_year file_path title_guess year_guess)"

definition tv_query :: "catalog \<Rightarrow> cand \<Rightarrow> py_error + item option" where
  \<comment> \<open>movie_tools.py: \<open>try: results = ... except Exception: results = []\<close>, then
      \<open>choose_best_tv(results, qt, qy)\<close>\<close>
  "tv_query search q =
     choose_best_tv (case search (fst q) (snd q) of Inl e \<Rightarrow> [] | Inr results \<Rightarrow> results)
       (fst q) (snd q)"

definition tv_query_tool :: "catalog \<Rightarrow> cand \<Rightarrow> py_error + item option" where
  \<comment> \<open>movie_tool.py: \<open>results = tmdbtv.search_tv(qt, qy)\<close>, whose error propagates, then
      \<open>choose_best_tv(results, qt, qy)\<close>\<close>
  "tv_query_tool search q =
     (case search (fst q) (snd q) of
        Inl e \<Rightarrow> Inl e
      | Inr results \<Rightarrow> choose_best_tv results (fst q) (snd q))"

fun query_loop :: "(cand \<Rightarrow> py_error + item option) \<Rightarrow> cand list \<Rightarrow> py_error + item option" where
  \<comment> \<open>\<open>for t, y in uniq: for qt, qy in [(t, None), (t, y)]: ...\<close>; the first argument is
      one search with its \<open>choose_best_tv\<close>. The test \<open>if show\<close> holds for every series
      returned: an empty object scores 0.\<close>
  "query_loop qf [] = Inr None"
| "query_loop qf (c # cs) =
     (case qf (fst c, None) of
        Inl e \<Rightarrow> Inl e
      | Inr (Some show) \<Rightarrow> Inr (Some show)
      | Inr None \<Rightarrow>
          (case qf c of
             Inl e \<Rightarrow> Inl e
           | Inr (Some show) \<Rightarrow> Inr (Some show)
           | Inr None \<Rightarrow> query_loop qf cs))"

definition try_tv_match_with_fallbacks ::
  "catalog \<Rightarrow> path \<Rightarrow> string \<Rightarrow> int option \<Rightarrow> string option \<Rightarrow> int option
     \<Rightarrow> py_error + item option" where
  \<comment> \<open>\<open>try_tv_match_with_fallbacks\<close> of movie_tools.py\<close>
  "try_tv_match_with_fallbacks search file_path title_guess year_guess force_show force_year =
     query_loop (tv_query search)
       (fallback_candidates season_folder_parent force_show force_year file_path title_guess
          year_guess)"

definition try_tv_match_with_fallbacks_tool ::
  "catalog \<Rightarrow> path \<Rightarrow> string \<Rightarrow> int option \<Rightarrow> string option \<Rightarrow> int option
     \<Rightarrow> py_error + item option" where
  \<comment> \<open>\<open>try_tv_match_with_fallbacks\<close> of movie_tool.py\<close>
  "try_tv_match_with_fallbacks_tool search file_path title_guess year_guess force_show force_year =
     query_loop (tv_query_tool search)
       (fallback_candidates season_folder_parent_tool force_show force_year file_path title_guess
          year_guess)"

definition tv_queries :: "cand list \<Rightarrow> cand list" where
  \<comment> \<open>the queries of \<open>query_loop\<close>, in order\<close>
  "tv_queries uniq = concat (map (\<lambda>c. [(fst c, None), c]) uniq)"

definition lost_path :: path where
  "lost_path = [''Lost (2004)'', ''Season 1'', ''Lost.S01E01.720p.mkv'']"

definition staffel_path :: path where
  "staffel_path = [''Dark (2017)'', ''Staffel 1'', ''S01E01.mkv'']"

definition open_season_item :: item where
  "open_season_item = blank_item\<lparr>item_id := 7518, name := Some ''Open Season'',
                        first_air_date := Some ''2006-09-29'', popularity := Some (JInt 20)\<rparr>"

definition empty_catalog :: catalog where
  \<comment> \<open>a catalog without answers\<close>
  "empty_catalog q y = Inr []"

definition failing_catalog :: catalog where
  \<comment> \<open>a catalog whose requests fail\<close>
  "failing_catalog q y = Inl RequestError"

definition season_only_catalog :: catalog where
  \<comment> \<open>a catalog that answers the query \<open>Season 1\<close> only\<close>
  "season_only_catalog q y = Inr (if q = ''Season 1'' then [open_season_item] else [])"

definition dark_item :: item where
  "dark_item = blank_item\<lparr>item_id := 70523, name := Some ''Dark'',
                 first_air_date := Some ''2017-12-01'', popularity := Some (JInt 40)\<rparr>"

definition staffel_catalog :: catalog where
  \<comment> \<open>a catalog that knows the series \<open>Dark\<close> and whose request for \<open>Staffel 1\<close> fails\<close>
  "staffel_catalog q y =
     (if q = ''Dark'' then Inr [dark_item]
      else if q = ''Staffel 1'' then Inl RequestError else Inr [])"

section \<open>Verified properties\<close>

lemma score_all_mem:
  "score_all f cs = Inr scored \<Longrightarrow> (s, c) \<in> set scored \<Longrightarrow> c \<in> set cs \<and> f c = Inr s"
proof (induction cs arbitrary: scored)
  case Nil
  then show ?case by simp
next
  case (Cons a cs)
  then show ?case
    by (auto split: sum.splits)
qed

lemma set_sort_desc: "set (sort_desc scored) = set scored"
  by (simp add: sort_desc_def)

lemma pick_top_Some:
  assumes "pick_top g scored = Some c"
  shows "\<exists>s. (s, c) \<in> set scored \<and> g \<le> s"
proof (cases "sort_desc scored")
  case Nil
  with assms show ?thesis by (simp add: pick_top_def)
next
  case (Cons x xs)
  obtain s d where x: "x = (s, d)" by (cases x)
  have "(s, d) \<in> set scored"
    using Cons x set_sort_desc [of scored] by (metis list.set_intros(1))
  with assms Cons x show ?thesis
    by (auto simp: pick_top_def split: if_splits)
qed

text \<open>
  Claim C2. Whenever the movie scorer or the series scorer returns a candidate, that
  candidate is one of the given candidates and its composite score, as the program
  computes it in double arithmetic, is at or above the gate the program compares it with:
  the double 0.25 for movies, the double 0.20 when the stripped query title is a year
  string, the double 0.18 for series.
\<close>

theorem choose_best_clears_gate:
  "(choose_best_match cands want_title want_year = Inr (Some c) \<longrightarrow>
      c \<in> set cands \<and>
      (\<exists>s. movie_score_double c want_title want_year = Inr s \<and>
           (if is_year_string (py_strip want_title) then to_double (20 / 100)
            else to_double (25 / 100)) \<le> s))
   \<and> (choose_best_tv cands want_title want_year = Inr (Some c) \<longrightarrow>
      c \<in> set cands \<and>
      (\<exists>s. tv_score_double c want_title want_year = Inr s \<and> to_double (18 / 100) \<le> s))"
proof (intro conjI impI)
  assume a: "choose_best_match cands want_title want_year = Inr (Some c)"
  then obtain scored where
    sc: "score_all (\<lambda>c. movie_score_double c want_title want_year) cands = Inr scored"
    and pt: "pick_top (movie_gate want_title) scored = Some c"
    by (auto simp: choose_best_match_def split: if_splits sum.splits)
  from pick_top_Some [OF pt] obtain s where s: "(s, c) \<in> set scored" "movie_gate want_title \<le> s"
    by blast
  from score_all_mem [OF sc s(1)]
  have m: "c \<in> set cands" "movie_score_double c want_title want_year = Inr s"
    by simp_all
  show "c \<in> set cands" by (rule m(1))
  show "\<exists>s. movie_score_double c want_title want_year = Inr s \<and>
           (if is_year_string (py_strip want_title) then to_double (20 / 100)
            else to_double (25 / 100)) \<le> s"
    using m(2) s(2) by (auto simp: movie_gate_def)
next
  assume a: "choose_best_tv cands want_title want_year = Inr (Some c)"
  then obtain scored where
    sc: "score_all (\<lambda>c. tv_score_double c want_title want_year) cands = Inr scored"
    and pt: "pick_top tv_gate scored = Some c"
    by (auto simp: choose_best_tv_def split: if_splits sum.splits)
  from pick_top_Some [OF pt] obtain s where s: "(s, c) \<in> set scored" "tv_gate \<le> s"
    by blast
  from score_all_mem [OF sc s(1)]
  have m: "c \<in> set cands" "tv_score_double c want_title want_year = Inr s"
    by simp_all
  show "c \<in> set cands" by (rule m(1))
  show "\<exists>s. tv_score_double c want_title want_year = Inr s \<and> to_double (18 / 100) \<le> s"
    using m(2) s(2) by (auto simp: tv_gate_def)
qed

lemma scorer_examples:
  "choose_best_match [matrix_item] ''The Matrix'' (Some 1999) = Inr (Some matrix_item)"
  "choose_best_tv [office_item, matrix_item] ''The Office (US)'' (Some 2004) = Inr (Some office_item)"
  "choose_best_match [third_item] ''Red Sun Rising'' None = Inr (Some third_item)"
  "choose_best_match [foo_item] ''2012'' (Some 2012) = Inr None"
  "movie_score_double third_item ''Red Sun Rising'' None = Inr (1 / 4)"
  "movie_score_double foo_item ''2012'' (Some 2012)
     = Inr (7205759403792793 / 36028797018963968)"
  "to_double (25 / 100) = 1 / 4"
  "to_double (20 / 100) = 3602879701896397 / 18014398509481984"
  "to_double (18 / 100) = 3242591731706757 / 18014398509481984"
  "\<not> is_year_string (py_strip ''The Matrix'')"
  "\<not> is_year_string (py_strip ''Red Sun Rising'')"
  by code_simp+

theorem choose_best_clears_gate_witness:
  "choose_best_match [matrix_item] ''The Matrix'' (Some 1999) = Inr (Some matrix_item)
   \<and> choose_best_tv [office_item, matrix_item] ''The Office (US)'' (Some 2004) = Inr (Some office_item)
   \<and> choose_best_match [third_item] ''Red Sun Rising'' None = Inr (Some third_item)
   \<and> (\<exists>s. movie_score_double matrix_item ''The Matrix'' (Some 1999) = Inr s \<and> 1 / 4 \<le> s)
   \<and> (\<exists>s. tv_score_double office_item ''The Office (US)'' (Some 2004) = Inr s
          \<and> 3242591731706757 / 18014398509481984 \<le> s)
   \<and> (\<exists>s. movie_score_double third_item ''Red Sun Rising'' None = Inr s \<and> 1 / 4 \<le> s)"
proof -
  from choose_best_clears_gate [of "[matrix_item]" "''The Matrix''" "Some 1999" matrix_item]
    scorer_examples(1,10)
  have "\<exists>s. movie_score_double matrix_item ''The Matrix'' (Some 1999) = Inr s
          \<and> to_double (25 / 100) \<le> s"
    by simp
  then have 1: "\<exists>s. movie_score_double matrix_item ''The Matrix'' (Some 1999) = Inr s \<and> 1 / 4 \<le> s"
    by (simp only: scorer_examples(7))
  from choose_best_clears_gate [of "[office_item, matrix_item]" "''The Office (US)''" "Some 2004"
      office_item] scorer_examples(2)
  have "\<exists>s. tv_score_double office_item ''The Office (US)'' (Some 2004) = Inr s
          \<and> to_double (18 / 100) \<le> s"
    by simp
  then have 2: "\<exists>s. tv_score_double office_item ''The Office (US)'' (Some 2004) = Inr s
          \<and> 3242591731706757 / 18014398509481984 \<le> s"
    by (simp only: scorer_examples(9))
  from choose_best_clears_gate [of "[third_item]" "''Red Sun Rising''" None third_item]
    scorer_examples(3,11)
  have "\<exists>s. movie_score_double third_item ''Red Sun Rising'' None = Inr s
          \<and> to_double (25 / 100) \<le> s"
    by simp
  then have 3: "\<exists>s. movie_score_double third_item ''Red Sun Rising'' None = Inr s \<and> 1 / 4 \<le> s"
    by (simp only: scorer_examples(7))
  from scorer_examples(1,2,3) 1 2 3 show ?thesis by blast
qed



text \<open>
  Claim C6 fails on the code. Both copies of \<open>sanitize_component\<close> strip whitespace
  before they strip trailing periods, so \<open>"a ."\<close> becomes \<open>"a "\<close>, whose sanitized form
  is \<open>"a"\<close>: sanitizing twice differs from sanitizing once.
\<close>

theorem sanitize_component_not_idempotent:
  "sanitize_component ''a .'' = ''a ''
   \<and> sanitize_component (sanitize_component ''a .'') = ''a''
   \<and> sanitize_component_tool ''a .'' = ''a ''
   \<and> sanitize_component_tool (sanitize_component_tool ''a .'') = ''a''"
  by code_simp


lemma reserved_suffix_Nil_iff: "reserved_suffix x = [] \<longleftrightarrow> x = []"
  by (auto simp: reserved_suffix_def py_lower_def RESERVED_WIN_NAMES_def)

lemma reserved_suffix_underscore: "reserved_suffix ''_'' = ''_''"
  by code_simp

lemma sanitize_component_tool_Nil_iff: "sanitize_component_tool x = [] \<longleftrightarrow> sanitize_clean x = []"
  by (simp add: sanitize_component_tool_def reserved_suffix_Nil_iff)

lemma sanitize_component_eq_tool:
  "sanitize_component x =
     (if sanitize_component_tool x = [] then ''_'' else sanitize_component_tool x)"
  by (simp add: sanitize_component_def sanitize_component_tool_def Let_def
      reserved_suffix_Nil_iff reserved_suffix_underscore)

text \<open>
  Claim C10 as stated fails: on the empty string the \<open>sanitize_component\<close> of
  movie_tool.py returns the empty string and that of movie_tools.py returns \<open>"_"\<close>, and
  for the format \<open>"x_"\<close> the two \<open>render_format\<close> return \<open>x_\<close> and \<open>x\<close>.
\<close>

theorem render_copies_counterexample:
  "sanitize_component_tool [] \<noteq> sanitize_component []
   \<and> render_format_tool ''x_'' empty_ctx \<noteq> render_format ''x_'' empty_ctx"
  by code_simp

text \<open>
  Claim C10, amended. The \<open>sanitize_component\<close> of movie_tools.py returns \<open>"_"\<close> where
  that of movie_tool.py returns the empty string, and the same string everywhere else.
  The two \<open>render_format\<close> return the same path whenever the placeholder substitution
  gives the same string with both sanitizers, the string reached before the last step has
  no trailing space, dot, underscore or dash to strip, and no path component of it
  sanitizes to the empty string.
\<close>

theorem render_copies_agree:
  "sanitize_component x =
     (if sanitize_component_tool x = [] then ''_'' else sanitize_component_tool x)
   \<and> (substitute (safe_fields sanitize_component_tool ctx) fmt
         = substitute (safe_fields sanitize_component ctx) fmt
       \<and> strip_trailing_seps (render_mid sanitize_component fmt ctx)
         = render_mid sanitize_component fmt ctx
       \<and> (\<forall>p \<in> set (path_parts (render_mid sanitize_component fmt ctx)).
            sanitize_component_tool p \<noteq> [])
       \<longrightarrow> render_format_tool fmt ctx = render_format fmt ctx)"
proof (intro conjI impI)
  show "sanitize_component x =
     (if sanitize_component_tool x = [] then ''_'' else sanitize_component_tool x)"
    by (rule sanitize_component_eq_tool)
next
  assume h: "substitute (safe_fields sanitize_component_tool ctx) fmt
         = substitute (safe_fields sanitize_component ctx) fmt
       \<and> strip_trailing_seps (render_mid sanitize_component fmt ctx)
         = render_mid sanitize_component fmt ctx
       \<and> (\<forall>p \<in> set (path_parts (render_mid sanitize_component fmt ctx)).
            sanitize_component_tool p \<noteq> [])"
  let ?mid = "render_mid sanitize_component fmt ctx"
  from h have mid: "render_mid sanitize_component_tool fmt ctx = ?mid"
    by (simp add: render_mid_def)
  from h have parts: "map sanitize_component_tool (path_parts ?mid)
                      = map sanitize_component (path_parts ?mid)"
    by (simp add: sanitize_component_eq_tool)
  from h have seps: "strip_trailing_seps ?mid = ?mid" by simp
  show "render_format_tool fmt ctx = render_format fmt ctx"
    by (simp add: render_format_tool_def render_format_def sanitize_path_components_def
        mid seps parts)
qed

theorem render_copies_agree_witness:
  "sanitize_component ''The Matrix'' = ''The Matrix''
   \<and> render_format_tool ''{ny}/{ny}'' matrix_ctx = [''The Matrix (1999)'', ''The Matrix (1999)'']
   \<and> render_format ''{ny}/{ny}'' matrix_ctx = [''The Matrix (1999)'', ''The Matrix (1999)'']"
proof -
  have t: "sanitize_component_tool ''The Matrix'' = ''The Matrix''"
    by code_simp
  have h1: "substitute (safe_fields sanitize_component_tool matrix_ctx) ''{ny}/{ny}''
         = substitute (safe_fields sanitize_component matrix_ctx) ''{ny}/{ny}''"
    by code_simp
  have h2: "strip_trailing_seps (render_mid sanitize_component ''{ny}/{ny}'' matrix_ctx)
         = render_mid sanitize_component ''{ny}/{ny}'' matrix_ctx"
    by code_simp
  have h3: "\<forall>p \<in> set (path_parts (render_mid sanitize_component ''{ny}/{ny}'' matrix_ctx)).
            sanitize_component_tool p \<noteq> []"
    by code_simp
  have r: "render_format ''{ny}/{ny}'' matrix_ctx = [''The Matrix (1999)'', ''The Matrix (1999)'']"
    by code_simp
  from render_copies_agree [of "''The Matrix''" matrix_ctx "''{ny}/{ny}''"] t h1 h2 h3 r
  show ?thesis by simp
qed

lemma digit_char_val: "d < 10 \<Longrightarrow> (of_char (''0123456789'' ! d) :: nat) = 48 + d"
proof -
  assume "d < 10"
  then have "d \<in> {0, 1, 2, 3, 4, 5, 6, 7, 8, 9}" by auto
  then show ?thesis by auto
qed

lemma nat_of_digits_snoc:
  "nat_of_digits (ds @ [c]) = 10 * nat_of_digits ds + (of_char c - 48)"
  by (simp add: nat_of_digits_def)

lemma nat_of_digits_of_nat: "nat_of_digits (digits_of_nat n) = n"
proof (induction n rule: digits_of_nat.induct)
  case (1 n)
  show ?case
  proof (cases "n < 10")
    case True
    then show ?thesis
      by (subst digits_of_nat.simps) (simp add: nat_of_digits_def digit_char_val)
  next
    case False
    have "n mod 10 < 10" by simp
    then have v: "(of_char (''0123456789'' ! (n mod 10)) :: nat) - 48 = n mod 10"
      by (simp add: digit_char_val)
    from False 1 have ih: "nat_of_digits (digits_of_nat (n div 10)) = n div 10" by simp
    show ?thesis
      using False
      by (subst digits_of_nat.simps) (simp add: nat_of_digits_snoc ih v)
  qed
qed

lemma digits_of_nat_inj: "digits_of_nat m = digits_of_nat n \<Longrightarrow> m = n"
  by (metis nat_of_digits_of_nat)

lemma numbered_inj: "numbered parent base ext m = numbered parent base ext n \<Longrightarrow> m = n"
  by (auto simp: numbered_def dest: digits_of_nat_inj)

lemma free_number_exists:
  assumes "finite {p. exists p}"
  shows "\<exists>n\<ge>k. \<not> exists (numbered parent base ext n)"
proof (rule ccontr)
  assume "\<not> (\<exists>n\<ge>k. \<not> exists (numbered parent base ext n))"
  then have all: "\<And>n. k \<le> n \<Longrightarrow> exists (numbered parent base ext n)" by blast
  have "inj_on (numbered parent base ext) {k..}"
    by (rule inj_onI) (rule numbered_inj)
  moreover have "infinite {k..}" by (simp add: infinite_Ici)
  ultimately have "infinite (numbered parent base ext ` {k..})"
    by (simp add: finite_image_iff)
  moreover have "numbered parent base ext ` {k..} \<subseteq> {p. exists p}"
    using all by auto
  ultimately show False using assms finite_subset by blast
qed

lemma ensure_loop_first_free:
  assumes "\<not> exists (numbered parent base ext n)"
    and "\<forall>m. k \<le> m \<and> m < n \<longrightarrow> exists (numbered parent base ext m)"
    and "k \<le> n"
  shows "ensure_loop exists parent base ext k = Some (numbered parent base ext n)"
  using assms
proof (induction "n - k" arbitrary: k)
  case 0
  then have "k = n" by simp
  with 0 show ?case by (subst ensure_loop.simps) simp
next
  case (Suc d)
  then have lt: "k < n" by simp
  with Suc.prems have ex: "exists (numbered parent base ext k)" by simp
  have "ensure_loop exists parent base ext (k + 1) = Some (numbered parent base ext n)"
  proof (rule Suc.hyps(1))
    show "d = n - (k + 1)" using Suc.hyps(2) by simp
    show "\<not> exists (numbered parent base ext n)" by (rule Suc.prems(1))
    show "\<forall>m. k + 1 \<le> m \<and> m < n \<longrightarrow> exists (numbered parent base ext m)"
      using Suc.prems(2) by simp
    show "k + 1 \<le> n" using lt by simp
  qed
  with ex show ?case by (subst ensure_loop.simps) simp
qed

text \<open>
  Claim C5. On a file system with finitely many entries \<open>ensure_unique_path\<close> returns,
  and the path it returns does not exist. It is the input when the input does not exist;
  otherwise it is the first free path among \<open>stem (2) ext\<close>, \<open>stem (3) ext\<close>, ... in the
  parent directory of the input.
\<close>

theorem ensure_unique_path_free:
  assumes "finite {p. exists p}"
  shows "\<exists>r. ensure_unique_path exists dst = Some r \<and> \<not> exists r
           \<and> (\<not> exists dst \<longrightarrow> r = dst)
           \<and> (exists dst \<longrightarrow>
                (\<exists>n\<ge>2. r = path_parent dst
                              @ [path_stem dst @ '' ('' @ digits_of_nat n @ '')'' @ path_suffix dst]
                   \<and> path_parent r = path_parent dst
                   \<and> (\<forall>m. 2 \<le> m \<and> m < n \<longrightarrow>
                         exists (path_parent dst
                              @ [path_stem dst @ '' ('' @ digits_of_nat m @ '')'' @ path_suffix dst]))))"
proof (cases "exists dst")
  case False
  then show ?thesis by (simp add: ensure_unique_path_def)
next
  case True
  let ?c = "numbered (path_parent dst) (path_stem dst) (path_suffix dst)"
  from free_number_exists [OF assms, of 2 "path_parent dst" "path_stem dst" "path_suffix dst"]
  have "\<exists>n. 2 \<le> n \<and> \<not> exists (?c n)" by blast
  then obtain n where n: "2 \<le> n \<and> \<not> exists (?c n)"
    and least: "\<And>m. m < n \<Longrightarrow> \<not> (2 \<le> m \<and> \<not> exists (?c m))"
    using exists_least_iff [of "\<lambda>n. 2 \<le> n \<and> \<not> exists (?c n)"] by blast
  have loop: "ensure_loop exists (path_parent dst) (path_stem dst) (path_suffix dst) 2 = Some (?c n)"
    by (rule ensure_loop_first_free) (use n least in auto)
  have par: "path_parent (?c n) = path_parent dst"
    by (simp add: numbered_def path_parent_def)
  show ?thesis
    using True n least loop par
    by (auto simp: ensure_unique_path_def numbered_def intro!: exI [of _ n])
qed

theorem ensure_unique_path_free_witness:
  "finite {p. two_taken p}
   \<and> ensure_unique_path two_taken [''lib'', ''a.mkv''] = Some [''lib'', ''a (3).mkv'']
   \<and> \<not> two_taken [''lib'', ''a (3).mkv'']"
proof -
  have f: "finite {p. two_taken p}" by (simp add: two_taken_def)
  have p: "path_parent [''lib'', ''a.mkv''] = [''lib'']" "path_stem [''lib'', ''a.mkv''] = ''a''"
    "path_suffix [''lib'', ''a.mkv''] = ''.mkv''"
    by code_simp+
  have n: "numbered [''lib''] ''a'' ''.mkv'' 2 = [''lib'', ''a (2).mkv'']"
    "numbered [''lib''] ''a'' ''.mkv'' 3 = [''lib'', ''a (3).mkv'']"
    by code_simp+
  have l3: "ensure_loop two_taken [''lib''] ''a'' ''.mkv'' 3 = Some [''lib'', ''a (3).mkv'']"
    by (subst ensure_loop.simps) (simp add: n two_taken_def)
  have l2: "ensure_loop two_taken [''lib''] ''a'' ''.mkv'' 2 = Some [''lib'', ''a (3).mkv'']"
    by (subst ensure_loop.simps) (simp add: n l3 two_taken_def)
  have e: "ensure_unique_path two_taken [''lib'', ''a.mkv''] = Some [''lib'', ''a (3).mkv'']"
    by (simp add: ensure_unique_path_def p l2 two_taken_def)
  from ensure_unique_path_free [OF f, of "[''lib'', ''a.mkv'']"] e
  have "\<not> two_taken [''lib'', ''a (3).mkv'']" by auto
  with f e show ?thesis by simp
qed

lemma max_by_mem: "max_by f best vs \<in> set (best # vs)"
  by (induction vs arbitrary: best) auto

lemma max_by_hd_tl: "xs \<noteq> [] \<Longrightarrow> max_by f (hd xs) (tl xs) \<in> set xs"
  using max_by_mem [of f "hd xs" "tl xs"] by simp

lemma max_by_first_max_gen:
  "\<forall>u \<in> set pre0. f u < f best \<Longrightarrow> \<forall>u \<in> set mid. f u \<le> f best \<Longrightarrow>
   \<exists>pre post. pre0 @ best # mid @ vs = pre @ max_by f best vs # post
     \<and> (\<forall>v \<in> set pre. f v < f (max_by f best vs))
     \<and> (\<forall>v \<in> set post. f v \<le> f (max_by f best vs))"
proof (induction vs arbitrary: pre0 best mid)
  case Nil
  then show ?case by auto
next
  case (Cons v vs)
  show ?case
  proof (cases "f best < f v")
    case True
    have a: "\<forall>u \<in> set (pre0 @ best # mid). f u < f v"
      using Cons.prems True by auto
    have b: "\<forall>u \<in> set ([] :: 'a list). f u \<le> f v" by simp
    from Cons.IH [OF a b] True show ?thesis by simp
  next
    case False
    have b: "\<forall>u \<in> set (mid @ [v]). f u \<le> f best"
      using Cons.prems(2) False by auto
    from Cons.IH [OF Cons.prems(1) b] False show ?thesis by simp
  qed
qed

lemma max_by_first_max:
  "\<exists>pre post. best # vs = pre @ max_by f best vs # post
     \<and> (\<forall>v \<in> set pre. f v < f (max_by f best vs))
     \<and> (\<forall>v \<in> set post. f v \<le> f (max_by f best vs))"
  using max_by_first_max_gen [of "[]" f best "[]" vs] by simp

text \<open>
  Claim C7 as stated fails: for a list whose only entry is hosted elsewhere, both pickers
  return nothing.
\<close>

theorem trailer_fallback_counterexample:
  "pick_best_trailer zero_hash [vimeo_video] [''en-US'', ''en''] = None
   \<and> best_trailer_url [vimeo_video] = None"
  by code_simp

text \<open>
  Claim C7, amended. For a list in which no entry is a YouTube entry with a key,
  \<open>pick_best_trailer\<close> scores the unfiltered list and returns nothing.
  \<open>best_trailer_url\<close> takes the best entry of the list, the first one of maximal score,
  and returns its \<open>url\<close> field when that is not empty, and nothing otherwise.
\<close>

theorem trailer_fallback_none:
  "(\<forall>v \<in> set videos. \<not> playable v) \<longrightarrow>
     pick_best_trailer py_hash videos prefer_langs = None
     \<and> (videos = [] \<longrightarrow> best_trailer_url videos = None)
     \<and> (videos \<noteq> [] \<longrightarrow>
          (\<exists>pre best post.
             videos = pre @ best # post
             \<and> (\<forall>v \<in> set pre. url_score v < url_score best)
             \<and> (\<forall>v \<in> set post. url_score v \<le> url_score best)
             \<and> best_trailer_url videos
                 = (if str_or (v_url best) [] \<noteq> [] then Some (str_or (v_url best) [])
                    else None)))"
proof (intro impI conjI)
  assume np: "\<forall>v \<in> set videos. \<not> playable v"
  show "pick_best_trailer py_hash videos prefer_langs = None"
  proof (cases "videos = []")
    case True
    then show ?thesis by (simp add: pick_best_trailer_def)
  next
    case False
    from np have yt: "filter playable videos = []" by (simp add: filter_empty_conv)
    let ?best = "max_by (trailer_score py_hash (prefer_norm prefer_langs)) (hd videos) (tl videos)"
    from max_by_hd_tl [OF False] have "?best \<in> set videos" .
    with np have "\<not> playable ?best" by blast
    with False yt show ?thesis by (simp add: pick_best_trailer_def Let_def)
  qed
next
  assume "videos = []"
  then show "best_trailer_url videos = None" by (simp add: best_trailer_url_def)
next
  assume np: "\<forall>v \<in> set videos. \<not> playable v" and ne: "videos \<noteq> []"
  let ?best = "max_by url_score (hd videos) (tl videos)"
  from max_by_first_max [of "hd videos" "tl videos" url_score] ne
  obtain pre post where
    sp: "videos = pre @ ?best # post"
    and lt: "\<forall>v \<in> set pre. url_score v < url_score ?best"
    and le: "\<forall>v \<in> set post. url_score v \<le> url_score ?best"
    by auto
  from max_by_hd_tl [OF ne] np have npb: "\<not> playable ?best" by blast
  have r: "best_trailer_url videos
             = (if str_or (v_url ?best) [] \<noteq> [] then Some (str_or (v_url ?best) []) else None)"
    using ne npb by (simp add: best_trailer_url_def Let_def)
  from sp lt le r
  show "\<exists>pre best post.
             videos = pre @ best # post
             \<and> (\<forall>v \<in> set pre. url_score v < url_score best)
             \<and> (\<forall>v \<in> set post. url_score v \<le> url_score best)
             \<and> best_trailer_url videos
                 = (if str_or (v_url best) [] \<noteq> [] then Some (str_or (v_url best) [])
                    else None)"
    by blast
qed

lemma hosted_facts:
  "\<not> playable vimeo_video" "\<not> playable hosted_video"
  "url_score vimeo_video = 2" "url_score hosted_video = 3"
  "str_or (v_url hosted_video) [] = ''https://www.dailymotion.com/video/x8k2f1''"
  by code_simp+

theorem trailer_fallback_none_witness:
  "\<not> playable vimeo_video \<and> \<not> playable hosted_video
   \<and> pick_best_trailer zero_hash [vimeo_video, hosted_video] [''en-US'', ''en''] = None
   \<and> best_trailer_url [vimeo_video, hosted_video]
       = Some ''https://www.dailymotion.com/video/x8k2f1''"
proof -
  have np: "\<forall>v \<in> set [vimeo_video, hosted_video]. \<not> playable v"
    using hosted_facts(1,2) by simp
  from trailer_fallback_none [of "[vimeo_video, hosted_video]" zero_hash "[''en-US'', ''en'']"] np
  have p: "pick_best_trailer zero_hash [vimeo_video, hosted_video] [''en-US'', ''en''] = None"
    and "\<exists>pre best post.
           [vimeo_video, hosted_video] = pre @ best # post
           \<and> (\<forall>v \<in> set pre. url_score v < url_score best)
           \<and> (\<forall>v \<in> set post. url_score v \<le> url_score best)
           \<and> best_trailer_url [vimeo_video, hosted_video]
               = (if str_or (v_url best) [] \<noteq> [] then Some (str_or (v_url best) []) else None)"
    by simp_all
  then obtain pre best post where
    sp: "[vimeo_video, hosted_video] = pre @ best # post"
    and le: "\<forall>v \<in> set post. url_score v \<le> url_score best"
    and r: "best_trailer_url [vimeo_video, hosted_video]
               = (if str_or (v_url best) [] \<noteq> [] then Some (str_or (v_url best) []) else None)"
    by blast
  have "best = hosted_video"
  proof (cases pre)
    case Nil
    with sp have "best = vimeo_video" "post = [hosted_video]" by simp_all
    with le hosted_facts(3,4) show ?thesis by simp
  next
    case (Cons a pre')
    with sp show ?thesis by (cases pre') simp_all
  qed
  with r hosted_facts(5)
  have "best_trailer_url [vimeo_video, hosted_video]
          = Some ''https://www.dailymotion.com/video/x8k2f1''"
    by simp
  with p hosted_facts(1,2) show ?thesis by simp
qed

text \<open>
  Claim C8 fails on the code. The tie-breaking term is \<open>hash(pub) % 1000\<close>, and the hash
  of a string changes with the hash seed of the process: for the same two entries and the
  same languages, one process picks the first entry and another picks the second.
\<close>

theorem trailer_pick_depends_on_hash_seed:
  "pick_best_trailer hash_seed_a [trailer_2020, trailer_2021] [''en-US'', ''en'']
     = Some ''https://www.youtube.com/watch?v=AAA''
   \<and> pick_best_trailer hash_seed_b [trailer_2020, trailer_2021] [''en-US'', ''en'']
     = Some ''https://www.youtube.com/watch?v=BBB''
   \<and> trailer_score hash_seed_a [''en-us'', ''en''] trailer_2020
     \<noteq> trailer_score hash_seed_b [''en-us'', ''en''] trailer_2020"
  by code_simp

lemma build_poster_url_Some:
  "poster \<noteq> [] \<Longrightarrow> \<exists>u. build_poster_url cfg poster want_size = Some u \<and> u \<noteq> []"
  by (simp add: build_poster_url_def Let_def)

lemma mkdir_parents_matrix:
  "mkdir_parents [''lib'', ''The Matrix (1999)''] lib_fs
     = Inr (lib_fs\<lparr>fs_dirs := {[''lib''], [''lib'', ''The Matrix (1999)'']}\<rparr>)"
  by (auto simp: mkdir_parents_def lib_fs_def)

text \<open>
  Claim C1 fails on the code. With dry-run enabled \<open>download_poster\<close> and
  \<open>download_trailer_with_ytdlp\<close> create the output directory before they look at the
  flag: a destination directory that did not exist is there after the call.
\<close>

theorem dry_run_creates_directory:
  "[''lib'', ''The Matrix (1999)''] \<notin> fs_dirs lib_fs
   \<and> download_poster cfg resp poster_item [''lib'', ''The Matrix (1999)''] True lib_fs
       = Inr (lib_fs\<lparr>fs_dirs := {[''lib''], [''lib'', ''The Matrix (1999)'']}\<rparr>)
   \<and> download_trailer_with_ytdlp fetcher url [''lib'', ''The Matrix (1999)''] True lib_fs
       = (True, lib_fs\<lparr>fs_dirs := {[''lib''], [''lib'', ''The Matrix (1999)'']}\<rparr>)"
proof -
  have pp: "str_or (poster_path poster_item) [] = ''/f89U3ADr1oiB1s9GkdPOEpXUk5H.jpg''"
    by (simp add: poster_item_def str_or_def)
  obtain u where u: "build_poster_url cfg ''/f89U3ADr1oiB1s9GkdPOEpXUk5H.jpg'' ''w500'' = Some u" "u \<noteq> []"
    using build_poster_url_Some [of "''/f89U3ADr1oiB1s9GkdPOEpXUk5H.jpg''" cfg "''w500''"] by auto
  have a: "[''lib'', ''The Matrix (1999)''] \<notin> fs_dirs lib_fs"
    by (simp add: lib_fs_def)
  have b: "download_poster cfg resp poster_item [''lib'', ''The Matrix (1999)''] True lib_fs
       = Inr (lib_fs\<lparr>fs_dirs := {[''lib''], [''lib'', ''The Matrix (1999)'']}\<rparr>)"
    by (simp add: download_poster_def pp u mkdir_parents_matrix Let_def)
  have c: "download_trailer_with_ytdlp fetcher url [''lib'', ''The Matrix (1999)''] True lib_fs
       = (True, lib_fs\<lparr>fs_dirs := {[''lib''], [''lib'', ''The Matrix (1999)'']}\<rparr>)"
    by (simp add: download_trailer_with_ytdlp_def mkdir_parents_matrix)
  from a b c show ?thesis by blast
qed

lemma takeWhile_digits_tag:
  assumes "all_digits de" "length de \<le> k" "ends_tag k de post"
  shows "takeWhile is_ascii_digit (take k (de @ post)) = de"
proof (cases "length de = k")
  case True
  with assms(1) show ?thesis by (simp add: all_digits_def list_all_iff)
next
  case False
  with assms have p: "post = [] \<or> \<not> is_ascii_digit (hd post)" and lt: "length de < k"
    by (auto simp: ends_tag_def)
  have "takeWhile is_ascii_digit (take (k - length de) post) = []"
    using p by (cases post; cases "k - length de") auto
  with assms(1) lt show ?thesis
    by (simp add: all_digits_def list_all_iff takeWhile_append2)
qed

lemma match_e_part_tag:
  assumes "e = CHR ''E'' \<or> e = CHR ''e''" "all_digits de" "de \<noteq> []" "length de \<le> 3"
    "ends_tag 3 de post"
  shows "match_e_part (e # de @ post) = Some (nat_of_digits de)"
  using assms takeWhile_digits_tag [of de 3 post]
  by (auto simp: match_e_part_def Let_def)

lemma match_sep_e_tag:
  assumes "sep = [] \<or> (\<exists>c. sep = [c] \<and> is_tag_sep c)"
    "e = CHR ''E'' \<or> e = CHR ''e''" "all_digits de" "de \<noteq> []" "length de \<le> 3"
    "ends_tag 3 de post"
  shows "match_sep_e (sep @ e # de @ post) = Some (nat_of_digits de)"
proof -
  have m: "match_e_part (e # de @ post) = Some (nat_of_digits de)"
    by (rule match_e_part_tag) (use assms in auto)
  have ne: "\<not> is_tag_sep e" using assms(2) by (auto simp: is_tag_sep_def)
  from assms(1) show ?thesis
  proof
    assume "sep = []"
    with m ne show ?thesis by (simp add: match_sep_e_def)
  next
    assume "\<exists>c. sep = [c] \<and> is_tag_sep c"
    then obtain c where "sep = [c]" "is_tag_sep c" by blast
    with m show ?thesis by (simp add: match_sep_e_def)
  qed
qed

lemma not_digit_E: "e = CHR ''E'' \<or> e = CHR ''e'' \<Longrightarrow> \<not> is_ascii_digit e"
  by (auto simp: is_ascii_digit_def)

lemma not_digit_sep: "is_tag_sep c \<Longrightarrow> \<not> is_ascii_digit c"
  by (auto simp: is_ascii_digit_def is_tag_sep_def)

lemma not_digit_x: "\<not> is_ascii_digit (CHR ''x'')"
  by (simp add: is_ascii_digit_def)

lemma match_sxe_tag:
  assumes "c = CHR ''S'' \<or> c = CHR ''s''" "all_digits ds" "ds \<noteq> []" "length ds \<le> 2"
    "sep = [] \<or> (\<exists>c. sep = [c] \<and> is_tag_sep c)"
    "e = CHR ''E'' \<or> e = CHR ''e''" "all_digits de" "de \<noteq> []" "length de \<le> 3"
    "ends_tag 3 de post"
  shows "match_sxe (c # ds @ sep @ e # de @ post) = Some (nat_of_digits ds, nat_of_digits de)"
proof -
  let ?tail = "sep @ e # de @ post"
  have m: "match_sep_e ?tail = Some (nat_of_digits de)"
    by (rule match_sep_e_tag) (use assms in auto)
  have nd: "\<not> is_ascii_digit (hd ?tail)" "?tail \<noteq> []"
    using assms(5,6) by (auto simp: not_digit_E not_digit_sep)
  from assms(3,4) consider d where "ds = [d]" | d1 d2 where "ds = [d1, d2]"
    by (cases ds rule: list.exhaust; cases "tl ds"; auto)
  then show ?thesis
  proof cases
    case 1
    with assms(2) have d: "is_ascii_digit d" by (simp add: all_digits_def)
    from nd obtain t ts where t: "?tail = t # ts" "\<not> is_ascii_digit t"
      by (cases ?tail) auto
    have "match_sxe (c # [d] @ ?tail) = Some (nat_of_digits [d], nat_of_digits de)"
      using assms(1) d m unfolding t(1) using t(2)
      by (simp add: match_sxe_def)
    with 1 show ?thesis by simp
  next
    case 2
    with assms(2) have d: "is_ascii_digit d1" "is_ascii_digit d2" by (simp_all add: all_digits_def)
    have "match_sxe (c # [d1, d2] @ ?tail) = Some (nat_of_digits [d1, d2], nat_of_digits de)"
      using assms(1) d m by (simp add: match_sxe_def)
    with 2 show ?thesis by simp
  qed
qed


lemma takeWhile_take1_nonempty:
  "takeWhile P (take 1 r) \<noteq> [] \<Longrightarrow> \<exists>d r'. r = d # r' \<and> P d"
  by (cases r) (auto split: if_splits)

lemma takeWhile_take2_full:
  "length (takeWhile P (take 2 r)) = 2 \<Longrightarrow> \<exists>d1 d2 r'. r = d1 # d2 # r' \<and> P d1 \<and> P d2"
proof -
  assume a: "length (takeWhile P (take 2 r)) = 2"
  then obtain d1 r1 where r: "r = d1 # r1" by (cases r) auto
  with a obtain d2 r2 where r1: "r1 = d2 # r2" by (cases r1) (auto split: if_splits)
  from a r r1 have "P d1 \<and> P d2" by (auto simp: numeral_2_eq_2 split: if_splits)
  with r r1 show ?thesis by blast
qed

lemma match_sxe_SomeD:
  assumes "match_sxe s = Some p"
  shows "\<exists>c d r. s = c # d # r \<and> (c = CHR ''S'' \<or> c = CHR ''s'') \<and> is_ascii_digit d"
proof (cases s)
  case Nil
  with assms show ?thesis by (simp add: match_sxe_def)
next
  case (Cons c r)
  with assms have c: "c = CHR ''S'' \<or> c = CHR ''s''"
    by (auto simp: match_sxe_def split: if_splits)
  have "length (takeWhile is_ascii_digit (take 2 r)) = 2 \<or> takeWhile is_ascii_digit (take 1 r) \<noteq> []"
    using assms Cons c by (auto simp: match_sxe_def split: if_splits option.splits)
  then have "\<exists>d r'. r = d # r' \<and> is_ascii_digit d"
    using takeWhile_take1_nonempty [of is_ascii_digit r] takeWhile_take2_full [of is_ascii_digit r]
    by blast
  with Cons c show ?thesis by blast
qed

lemma match_x_part_SomeD: "match_x_part s = Some e \<Longrightarrow> \<exists>r. s = CHR ''x'' # r"
  by (cases s) (auto simp: match_x_part_def split: if_splits)

lemma match_nxm_SomeD:
  assumes "match_nxm s = Some p"
  shows "(\<exists>d r. s = d # CHR ''x'' # r \<and> is_ascii_digit d)
         \<or> (\<exists>d1 d2 r. s = d1 # d2 # CHR ''x'' # r \<and> is_ascii_digit d1 \<and> is_ascii_digit d2)"
proof -
  from assms consider
      (two) e where "length (takeWhile is_ascii_digit (take 2 s)) = 2" "match_x_part (drop 2 s) = Some e"
    | (one) e where "takeWhile is_ascii_digit (take 1 s) \<noteq> []" "match_x_part (drop 1 s) = Some e"
    by (auto simp: match_nxm_def split: if_splits option.splits)
  then show ?thesis
  proof cases
    case two
    from takeWhile_take2_full [OF two(1)] obtain d1 d2 r'
      where s: "s = d1 # d2 # r'" "is_ascii_digit d1" "is_ascii_digit d2" by blast
    with match_x_part_SomeD [OF two(2)] show ?thesis by auto
  next
    case one
    from takeWhile_take1_nonempty [OF one(1)] obtain d r'
      where s: "s = d # r'" "is_ascii_digit d" by blast
    with match_x_part_SomeD [OF one(2)] show ?thesis by auto
  qed
qed

lemma sxe_free_tl: "sxe_free (a # s) \<Longrightarrow> sxe_free s"
  by (cases s) auto

lemma nxm_free_tl: "nxm_free (a # s) \<Longrightarrow> nxm_free s"
  by (cases s) auto

lemma sxe_free_skip:
  "sxe_free pre \<Longrightarrow> \<not> is_ascii_digit c0 \<Longrightarrow>
     re_search match_sxe (pre @ c0 # rest) = re_search match_sxe (c0 # rest)"
proof (induction pre)
  case Nil
  then show ?case by simp
next
  case (Cons a pre)
  have "match_sxe (a # pre @ c0 # rest) = None"
  proof (rule ccontr)
    assume "match_sxe (a # pre @ c0 # rest) \<noteq> None"
    then obtain p where "match_sxe (a # pre @ c0 # rest) = Some p" by auto
    from match_sxe_SomeD [OF this] obtain d r where
      d: "pre @ c0 # rest = d # r" "a = CHR ''S'' \<or> a = CHR ''s''" "is_ascii_digit d" by auto
    show False
    proof (cases pre)
      case Nil
      with d Cons.prems(2) show False by simp
    next
      case (Cons b pre')
      with d \<open>sxe_free (a # pre)\<close> show False by simp
    qed
  qed
  moreover have "sxe_free pre" using Cons.prems(1) by (rule sxe_free_tl)
  ultimately show ?case using Cons.IH Cons.prems(2) by simp
qed

lemma sxe_free_none: "sxe_free s \<Longrightarrow> re_search match_sxe s = None"
proof (induction s)
  case Nil
  then show ?case by (simp add: match_sxe_def)
next
  case (Cons a s)
  have "match_sxe (a # s) = None"
  proof (rule ccontr)
    assume "match_sxe (a # s) \<noteq> None"
    then obtain p where "match_sxe (a # s) = Some p" by auto
    from match_sxe_SomeD [OF this] Cons.prems show False by auto
  qed
  moreover have "sxe_free s" using Cons.prems by (rule sxe_free_tl)
  ultimately show ?case using Cons.IH by simp
qed

lemma nxm_free_skip:
  "nxm_free pre \<Longrightarrow> pre = [] \<or> \<not> is_ascii_digit (last pre) \<Longrightarrow> is_ascii_digit d0 \<Longrightarrow>
     re_search match_nxm (pre @ d0 # rest) = re_search match_nxm (d0 # rest)"
proof (induction pre)
  case Nil
  then show ?case by simp
next
  case (Cons a pre)
  have "match_nxm (a # pre @ d0 # rest) = None"
  proof (rule ccontr)
    assume "match_nxm (a # pre @ d0 # rest) \<noteq> None"
    then obtain p where "match_nxm (a # pre @ d0 # rest) = Some p" by auto
    from match_nxm_SomeD [OF this] consider
        (one) r where "pre @ d0 # rest = CHR ''x'' # r" "is_ascii_digit a"
      | (two) d2 r where "pre @ d0 # rest = d2 # CHR ''x'' # r" "is_ascii_digit a" "is_ascii_digit d2"
      by auto
    then show False
    proof cases
      case one
      show False
      proof (cases pre)
        case Nil
        with one Cons.prems(3) show False by (simp add: not_digit_x)
      next
        case (Cons b pre')
        with one \<open>nxm_free (a # pre)\<close> show False by simp
      qed
    next
      case two
      show False
      proof (cases pre)
        case Nil
        with two Cons.prems(2) show False by simp
      next
        case c1: (Cons b pre')
        show False
        proof (cases pre')
          case Nil
          with c1 two Cons.prems(2) show False by simp
        next
          case (Cons b' pre'')
          with c1 two \<open>nxm_free (a # pre)\<close> show False by simp
        qed
      qed
    qed
  qed
  moreover have "nxm_free pre" using Cons.prems(1) by (rule nxm_free_tl)
  moreover have "pre = [] \<or> \<not> is_ascii_digit (last pre)" using Cons.prems(2) by (cases pre) auto
  ultimately show ?case using Cons.IH Cons.prems(3) by simp
qed

lemma match_x_part_tag:
  assumes "all_digits de" "de \<noteq> []" "length de \<le> 2" "ends_tag 2 de post"
  shows "match_x_part (CHR ''x'' # de @ post) = Some (nat_of_digits de)"
  using assms takeWhile_digits_tag [of de 2 post]
  by (auto simp: match_x_part_def Let_def)

lemma match_nxm_tag:
  assumes "all_digits ds" "ds \<noteq> []" "length ds \<le> 2"
    "all_digits de" "de \<noteq> []" "length de \<le> 2" "ends_tag 2 de post"
  shows "match_nxm (ds @ CHR ''x'' # de @ post) = Some (nat_of_digits ds, nat_of_digits de)"
proof -
  let ?tail = "CHR ''x'' # de @ post"
  have m: "match_x_part ?tail = Some (nat_of_digits de)"
    by (rule match_x_part_tag) (use assms in auto)
  from assms(2,3) consider d where "ds = [d]" | d1 d2 where "ds = [d1, d2]"
    by (cases ds rule: list.exhaust; cases "tl ds"; auto)
  then show ?thesis
  proof cases
    case 1
    with assms(1) have d: "is_ascii_digit d" by (simp add: all_digits_def)
    have "match_nxm ([d] @ ?tail) = Some (nat_of_digits [d], nat_of_digits de)"
      using d m by (simp add: match_nxm_def not_digit_x)
    with 1 show ?thesis by simp
  next
    case 2
    with assms(1) have d: "is_ascii_digit d1" "is_ascii_digit d2" by (simp_all add: all_digits_def)
    have "match_nxm ([d1, d2] @ ?tail) = Some (nat_of_digits [d1, d2], nat_of_digits de)"
      using d m by (simp add: match_nxm_def)
    with 2 show ?thesis by simp
  qed
qed

lemma re_search_here: "m s = Some x \<Longrightarrow> re_search m s = Some x"
  by (cases s) auto

text \<open>
  Claim C4 as stated fails: a resolution token before the tag is taken for the tag, and an
  episode of three digits after \<open>x\<close> is cut to two.
\<close>

theorem parse_episode_tag_counterexample:
  "parse_episode_tag ''Show.1280x720.2x05'' = Some (80, 72)
   \<and> parse_episode_tag ''Show.1x100'' = Some (1, 10)"
  by code_simp

text \<open>
  Claim C4, amended. The parser returns the pair of the leftmost tag. For a stem
  \<open>pre S ds sep E de post\<close> (season \<open>ds\<close> of 1-2 digits, at most one separator, episode
  \<open>de\<close> of 1-3 digits not followed by a further digit) in which no \<open>S\<close> stands
  before a digit in \<open>pre\<close>, it returns \<open>(ds, de)\<close>. For a stem \<open>pre ds x de post\<close> (both of
  1-2 digits, \<open>de\<close> not followed by a further digit) that has no \<open>S\<close> before a digit at
  all, and in which \<open>pre\<close> has no \<open>x\<close> after a digit and does not end in a digit, it
  returns \<open>(ds, de)\<close>.
\<close>

theorem parse_episode_tag_leftmost:
  "(sxe_free pre \<and> (c = CHR ''S'' \<or> c = CHR ''s'')
      \<and> all_digits ds \<and> ds \<noteq> [] \<and> length ds \<le> 2
      \<and> (sep = [] \<or> (\<exists>d. sep = [d] \<and> is_tag_sep d))
      \<and> (e = CHR ''E'' \<or> e = CHR ''e'')
      \<and> all_digits de \<and> de \<noteq> [] \<and> length de \<le> 3 \<and> ends_tag 3 de post
    \<longrightarrow> parse_episode_tag (pre @ c # ds @ sep @ e # de @ post)
          = Some (nat_of_digits ds, nat_of_digits de))
   \<and> (sxe_free (pre @ ns @ CHR ''x'' # ne @ post)
      \<and> nxm_free pre \<and> (pre = [] \<or> \<not> is_ascii_digit (last pre))
      \<and> all_digits ns \<and> ns \<noteq> [] \<and> length ns \<le> 2
      \<and> all_digits ne \<and> ne \<noteq> [] \<and> length ne \<le> 2 \<and> ends_tag 2 ne post
    \<longrightarrow> parse_episode_tag (pre @ ns @ CHR ''x'' # ne @ post)
          = Some (nat_of_digits ns, nat_of_digits ne))"
proof (intro conjI impI)
  assume h: "sxe_free pre \<and> (c = CHR ''S'' \<or> c = CHR ''s'')
      \<and> all_digits ds \<and> ds \<noteq> [] \<and> length ds \<le> 2
      \<and> (sep = [] \<or> (\<exists>d. sep = [d] \<and> is_tag_sep d))
      \<and> (e = CHR ''E'' \<or> e = CHR ''e'')
      \<and> all_digits de \<and> de \<noteq> [] \<and> length de \<le> 3 \<and> ends_tag 3 de post"
  have m: "match_sxe (c # ds @ sep @ e # de @ post) = Some (nat_of_digits ds, nat_of_digits de)"
    by (rule match_sxe_tag) (use h in auto)
  have nd: "\<not> is_ascii_digit c" using h by (auto simp: is_ascii_digit_def)
  have "re_search match_sxe (pre @ c # ds @ sep @ e # de @ post)
        = re_search match_sxe (c # ds @ sep @ e # de @ post)"
    by (rule sxe_free_skip) (use h nd in auto)
  also have "\<dots> = Some (nat_of_digits ds, nat_of_digits de)"
    using m by (rule re_search_here)
  finally show "parse_episode_tag (pre @ c # ds @ sep @ e # de @ post)
          = Some (nat_of_digits ds, nat_of_digits de)"
    by (simp add: parse_episode_tag_def)
next
  assume h: "sxe_free (pre @ ns @ CHR ''x'' # ne @ post)
      \<and> nxm_free pre \<and> (pre = [] \<or> \<not> is_ascii_digit (last pre))
      \<and> all_digits ns \<and> ns \<noteq> [] \<and> length ns \<le> 2
      \<and> all_digits ne \<and> ne \<noteq> [] \<and> length ne \<le> 2 \<and> ends_tag 2 ne post"
  have none: "re_search match_sxe (pre @ ns @ CHR ''x'' # ne @ post) = None"
    by (rule sxe_free_none) (use h in auto)
  have m: "match_nxm (ns @ CHR ''x'' # ne @ post) = Some (nat_of_digits ns, nat_of_digits ne)"
    by (rule match_nxm_tag) (use h in auto)
  from h obtain d0 ns' where ns: "ns = d0 # ns'" "is_ascii_digit d0"
    by (cases ns) (auto simp: all_digits_def)
  have "re_search match_nxm (pre @ d0 # ns' @ CHR ''x'' # ne @ post)
        = re_search match_nxm (d0 # ns' @ CHR ''x'' # ne @ post)"
    by (rule nxm_free_skip) (use h ns in auto)
  also have "\<dots> = Some (nat_of_digits ns, nat_of_digits ne)"
    using m ns by (simp add: re_search_here)
  finally show "parse_episode_tag (pre @ ns @ CHR ''x'' # ne @ post)
          = Some (nat_of_digits ns, nat_of_digits ne)"
    using none ns by (simp add: parse_episode_tag_def)
qed

theorem parse_episode_tag_leftmost_witness:
  "parse_episode_tag ''Show.Name.S02E05.720p.x264-GRP'' = Some (2, 5)
   \<and> parse_episode_tag ''Show.Name.2x05.720p.x264-GRP'' = Some (2, 5)"
proof -
  have d: "nat_of_digits ''02'' = 2" "nat_of_digits ''05'' = 5" "nat_of_digits ''2'' = 2"
    by code_simp+
  have h1: "sxe_free ''Show.Name.'' \<and> all_digits ''02'' \<and> all_digits ''05''
            \<and> ends_tag 3 ''05'' ''.720p.x264-GRP''"
    by code_simp
  have h2: "sxe_free (''Show.Name.'' @ ''2'' @ CHR ''x'' # ''05'' @ ''.720p.x264-GRP'')
            \<and> nxm_free ''Show.Name.'' \<and> \<not> is_ascii_digit (last ''Show.Name.'')
            \<and> all_digits ''2'' \<and> ends_tag 2 ''05'' ''.720p.x264-GRP''"
    by code_simp
  from parse_episode_tag_leftmost [of "''Show.Name.''" "CHR ''S''" "''02''" "[]" "CHR ''E''"
      "''05''" "''.720p.x264-GRP''" "''2''" "''05''"] h1 h2 d
  show ?thesis by simp
qed


lemma season_folder_parent_by: "season_folder_parent = season_parent_by season_words"
  by (rule ext) (simp add: season_folder_parent_def)

lemma season_folder_parent_tool_by: "season_folder_parent_tool = season_parent_by season_words_tool"
  by (rule ext) (simp add: season_folder_parent_tool_def)

lemma parent_chain_by:
  "parent_chain (season_parent_by pat) fp
     = (if re_found pat (path_name (path_parent fp)) then [path_parent (path_parent fp)] else [])
       @ [path_parent fp, path_parent (path_parent fp)]"
  by (simp add: parent_chain_def season_parent_by_def Let_def)

lemma parent_in_chain: "path_parent fp \<in> set (parent_chain sfp fp)"
  by (simp add: parent_chain_def)

lemma raw_candidates_cong:
  "sfp fp = sfp' fp \<Longrightarrow>
     raw_candidates sfp force_show force_year fp title_guess year_guess
       = raw_candidates sfp' force_show force_year fp title_guess year_guess"
  by (simp add: raw_candidates_def parent_chain_def)

lemma dir_cands_mem:
  "parent \<in> set chain \<Longrightarrow> parent \<noteq> fp \<Longrightarrow> path_name parent \<noteq> [] \<Longrightarrow>
   normalize_show_hint (fst (split_stem_year (path_name parent))) \<noteq> [] \<Longrightarrow>
   has_letter (normalize_show_hint (fst (split_stem_year (path_name parent)))) \<Longrightarrow>
   (normalize_show_hint (fst (split_stem_year (path_name parent))),
    snd (split_stem_year (path_name parent))) \<in> set (dir_cands fp chain)"
  by (induction chain) (auto simp: Let_def)

lemma uniq_loop_subseq: "subseq (uniq_loop seen cs) cs"
  by (induction cs arbitrary: seen) (auto simp: Let_def)

lemma uniq_loop_keys:
  "(\<lambda>c. py_lower (fst c)) ` set (uniq_loop seen cs)
     = (\<lambda>c. py_lower (fst c)) ` set cs - set seen"
  by (induction cs arbitrary: seen) auto

lemma uniq_loop_distinct: "distinct (map (\<lambda>c. py_lower (fst c)) (uniq_loop seen cs))"
proof (induction cs arbitrary: seen)
  case Nil
  then show ?case by simp
next
  case (Cons c cs)
  have "py_lower (fst c) \<notin> (\<lambda>c. py_lower (fst c)) ` set (uniq_loop (py_lower (fst c) # seen) cs)"
    by (simp add: uniq_loop_keys)
  with Cons show ?case by simp
qed

lemma uniq_loop_unseen: "c \<in> set (uniq_loop seen cs) \<Longrightarrow> py_lower (fst c) \<notin> set seen"
proof -
  assume "c \<in> set (uniq_loop seen cs)"
  then have "py_lower (fst c) \<in> (\<lambda>c. py_lower (fst c)) ` set (uniq_loop seen cs)" by (rule imageI)
  then show ?thesis by (simp add: uniq_loop_keys)
qed

lemma uniq_loop_first:
  "c \<in> set (uniq_loop seen cs) \<Longrightarrow>
     find (\<lambda>d. py_lower (fst d) = py_lower (fst c)) cs = Some c"
proof (induction cs arbitrary: seen)
  case Nil
  then show ?case by simp
next
  case (Cons d cs)
  show ?case
  proof (cases "py_lower (fst d) \<in> set seen")
    case True
    with Cons.prems have m: "c \<in> set (uniq_loop seen cs)" by simp
    from uniq_loop_unseen [OF m] True have "py_lower (fst d) \<noteq> py_lower (fst c)" by auto
    with Cons.IH [OF m] show ?thesis by simp
  next
    case False
    show ?thesis
    proof (cases "c = d")
      case True
      then show ?thesis by simp
    next
      case ne: False
      with False Cons.prems have m: "c \<in> set (uniq_loop (py_lower (fst d) # seen) cs)" by simp
      from uniq_loop_unseen [OF m] have "py_lower (fst d) \<noteq> py_lower (fst c)" by auto
      with Cons.IH [OF m] show ?thesis by simp
    qed
  qed
qed

lemma tv_queries_Cons: "tv_queries (c # cs) = (fst c, None) # c # tv_queries cs"
  by (simp add: tv_queries_def)

lemma query_loop_first:
  "query_loop qf cs
     = (case dropWhile (\<lambda>q. qf q = Inr None) (tv_queries cs) of [] \<Rightarrow> Inr None | q # rest \<Rightarrow> qf q)"
proof (induction cs)
  case Nil
  then show ?case by (simp add: tv_queries_def)
next
  case (Cons c cs)
  show ?case
  proof (cases "qf (fst c, None) = Inr None")
    case False
    then show ?thesis
      by (cases "qf (fst c, None)"; cases "projr (qf (fst c, None))") (auto simp: tv_queries_Cons)
  next
    case n1: True
    show ?thesis
    proof (cases "qf c = Inr None")
      case False
      with n1 show ?thesis
        by (cases "qf c"; cases "projr (qf c)") (auto simp: tv_queries_Cons)
    next
      case True
      with n1 Cons.IH show ?thesis by (simp add: tv_queries_Cons)
    qed
  qed
qed

lemma first_query_split:
  "(case dropWhile (\<lambda>q. qf q = Inr None) qs of [] \<Rightarrow> Inr None | q # rest \<Rightarrow> qf q) = r \<Longrightarrow>
   r \<noteq> Inr None \<Longrightarrow>
     \<exists>pre q post. qs = pre @ q # post \<and> qf q = r \<and> list_all (\<lambda>p. qf p = Inr None) pre"
proof -
  assume a: "(case dropWhile (\<lambda>q. qf q = Inr None) qs of [] \<Rightarrow> Inr None | q # rest \<Rightarrow> qf q) = r"
    and b: "r \<noteq> Inr None"
  from a b obtain q rest where d: "dropWhile (\<lambda>q. qf q = Inr None) qs = q # rest" and q: "qf q = r"
    by (cases "dropWhile (\<lambda>q. qf q = Inr None) qs") auto
  have "qs = takeWhile (\<lambda>q. qf q = Inr None) qs @ q # rest"
    using d takeWhile_dropWhile_id [of "\<lambda>q. qf q = Inr None" qs] by simp
  moreover have "list_all (\<lambda>p. qf p = Inr None) (takeWhile (\<lambda>q. qf q = Inr None) qs)"
    by (simp add: list_all_iff) (meson set_takeWhileD)
  ultimately show ?thesis using q by blast
qed

lemma first_query_none:
  "(case dropWhile (\<lambda>q. qf q = Inr None) qs of [] \<Rightarrow> Inr None | q # rest \<Rightarrow> qf q) = Inr None \<Longrightarrow>
     list_all (\<lambda>p. qf p = Inr None) qs"
proof (induction qs)
  case Nil
  then show ?case by simp
next
  case (Cons a qs)
  show ?case
  proof (cases "qf a = Inr None")
    case True
    with Cons.prems have
      "(case dropWhile (\<lambda>q. qf q = Inr None) qs of [] \<Rightarrow> Inr None | q # rest \<Rightarrow> qf q) = Inr None"
      by simp
    from Cons.IH [OF this] True show ?thesis by simp
  next
    case False
    then have "dropWhile (\<lambda>q. qf q = Inr None) (a # qs) = a # qs" by simp
    with Cons.prems have "qf a = Inr None" by (simp only: list.case)
    with False show ?thesis by simp
  qed
qed

lemma choose_best_tv_Nil: "choose_best_tv [] want_title want_year = Inr None"
  by (simp add: choose_best_tv_def)

lemma tv_query_failed:
  "search (fst q) (snd q) = Inl e \<Longrightarrow> tv_query search q = Inr None \<and> tv_query_tool search q = Inl e"
  by (simp add: tv_query_def tv_query_tool_def choose_best_tv_Nil)

lemma tv_query_answered:
  "search (fst q) (snd q) = Inr results \<Longrightarrow>
     tv_query search q = choose_best_tv results (fst q) (snd q)
     \<and> tv_query_tool search q = choose_best_tv results (fst q) (snd q)"
  by (simp add: tv_query_def tv_query_tool_def)

lemma lost_season:
  "re_found season_words (path_name (path_parent lost_path))
   \<and> re_found season_words_tool (path_name (path_parent lost_path))"
  by code_simp

lemma lost_sfp: "season_folder_parent_tool lost_path = season_folder_parent lost_path"
  using lost_season
  by (simp add: season_folder_parent_def season_folder_parent_tool_def season_parent_by_def Let_def)

lemma lost_raw:
  "raw_candidates season_folder_parent None None lost_path ''Lost S01E01'' None
     = [(''Lost'', None), (''Lost S01E01'', None), (''Lost'', Some 2004), (''Season 1'', None),
        (''Lost'', Some 2004)]"
  by code_simp

lemma lost_raw_tool:
  "raw_candidates season_folder_parent_tool None None lost_path ''Lost S01E01'' None
     = [(''Lost'', None), (''Lost S01E01'', None), (''Lost'', Some 2004), (''Season 1'', None),
        (''Lost'', Some 2004)]"
  using raw_candidates_cong [of season_folder_parent_tool lost_path season_folder_parent None None
      "''Lost S01E01''" None] lost_sfp lost_raw by simp

lemma lost_uniq_loop:
  "uniq_loop [] [(''Lost'', None), (''Lost S01E01'', None), (''Lost'', Some 2004),
                 (''Season 1'', None), (''Lost'', Some 2004)]
     = [(''Lost'', None), (''Lost S01E01'', None), (''Season 1'', None)]"
  by code_simp

lemma lost_uniq:
  "fallback_candidates season_folder_parent None None lost_path ''Lost S01E01'' None
     = [(''Lost'', None), (''Lost S01E01'', None), (''Season 1'', None)]"
  unfolding fallback_candidates_def lost_raw by (rule lost_uniq_loop)

lemma lost_uniq_tool:
  "fallback_candidates season_folder_parent_tool None None lost_path ''Lost S01E01'' None
     = [(''Lost'', None), (''Lost S01E01'', None), (''Season 1'', None)]"
  unfolding fallback_candidates_def lost_raw_tool by (rule lost_uniq_loop)

lemma lost_guess: "split_stem_year (path_stem lost_path) = (''Lost S01E01'', None)"
  by code_simp

lemma lost_match:
  "try_tv_match_with_fallbacks season_only_catalog lost_path ''Lost S01E01'' None None None
     = Inr (Some open_season_item)"
  unfolding try_tv_match_with_fallbacks_def lost_uniq by code_simp

lemma lost_match_tool:
  "try_tv_match_with_fallbacks_tool season_only_catalog lost_path ''Lost S01E01'' None None None
     = Inr (Some open_season_item)"
  unfolding try_tv_match_with_fallbacks_tool_def lost_uniq_tool by code_simp

text \<open>
  Claim C9 as stated fails, in both files: for \<open>Lost (2004)/Season 1/Lost.S01E01.720p.mkv\<close>
  the season folder's own name is the third query candidate, and a catalog that answers
  that query only gives the match.
\<close>

theorem tv_fallback_counterexample:
  "split_stem_year (path_stem lost_path) = (''Lost S01E01'', None)
   \<and> re_found season_words (path_name (path_parent lost_path))
   \<and> re_found season_words_tool (path_name (path_parent lost_path))
   \<and> fallback_candidates season_folder_parent None None lost_path ''Lost S01E01'' None
       = [(''Lost'', None), (''Lost S01E01'', None), (''Season 1'', None)]
   \<and> fallback_candidates season_folder_parent_tool None None lost_path ''Lost S01E01'' None
       = [(''Lost'', None), (''Lost S01E01'', None), (''Season 1'', None)]
   \<and> try_tv_match_with_fallbacks season_only_catalog lost_path ''Lost S01E01'' None None None
       = Inr (Some open_season_item)
   \<and> try_tv_match_with_fallbacks_tool season_only_catalog lost_path ''Lost S01E01'' None None None
       = Inr (Some open_season_item)"
  using lost_guess lost_season lost_uniq lost_uniq_tool lost_match lost_match_tool by simp

text \<open>
  Claim C9, amended. The two files are told apart by the season pattern \<open>pat\<close>
  (movie_tools.py: \<open>season\<close> or \<open>seizoen\<close> as a word, \<open>saison\<close>, \<open>staffel\<close> or
  \<open>temporada\<close> anywhere, any case; movie_tool.py: \<open>season\<close> or \<open>seizoen\<close> as a word only)
  and by one query \<open>qf\<close> (movie_tools.py takes a failed search for an empty result;
  in movie_tool.py the error of the search is the result). For either file:

  \<^item> the directories are taken in the order: the parent of the file's directory when the
    name of that directory matches the season pattern, then the file's directory itself,
    then its parent;
  \<^item> the file's directory gives a candidate whenever its cleaned name has a letter, season
    folder or not;
  \<^item> the raw candidates are the forced name, the filename parse, the normalized guess and
    the directories, in this order;
  \<^item> the candidates tried are the raw candidates without those whose lower-cased title
    came earlier, in the same order: the first occurrence of each lower-cased title is
    kept, and no title is lost;
  \<^item> each candidate is queried without the year and then with it, and the result is that
    of the first query that does not give "no match": a series that clears the gate, or
    an error; when the result is no match, every query gave no match;
  \<^item> a failed search gives no match in movie_tools.py and the error in movie_tool.py; an
    answered search gives the best series of its results in both.
\<close>

theorem tv_fallback_chain:
  assumes src:
    "(pat = season_words \<and> sfp = season_folder_parent \<and> qf = tv_query search
        \<and> res = try_tv_match_with_fallbacks search fp title_guess year_guess force_show force_year)
     \<or> (pat = season_words_tool \<and> sfp = season_folder_parent_tool \<and> qf = tv_query_tool search
        \<and> res = try_tv_match_with_fallbacks_tool search fp title_guess year_guess force_show
                  force_year)"
    and dir: "dir = path_parent fp"
    and raw: "raw = raw_candidates sfp force_show force_year fp title_guess year_guess"
    and uniq: "uniq = fallback_candidates sfp force_show force_year fp title_guess year_guess"
  shows
    "parent_chain sfp fp
       = (if re_found pat (path_name dir) then [path_parent dir] else []) @ [dir, path_parent dir]
     \<and> (dir \<noteq> fp \<and> path_name dir \<noteq> []
          \<and> normalize_show_hint (fst (split_stem_year (path_name dir))) \<noteq> []
          \<and> has_letter (normalize_show_hint (fst (split_stem_year (path_name dir))))
        \<longrightarrow> (normalize_show_hint (fst (split_stem_year (path_name dir))),
             snd (split_stem_year (path_name dir))) \<in> set raw)
     \<and> raw = forced_candidate force_show force_year @ parsed_candidate fp
               @ guess_candidate title_guess year_guess @ dir_cands fp (parent_chain sfp fp)
     \<and> subseq uniq raw
     \<and> distinct (map (\<lambda>c. py_lower (fst c)) uniq)
     \<and> (\<forall>c \<in> set uniq. find (\<lambda>d. py_lower (fst d) = py_lower (fst c)) raw = Some c)
     \<and> (\<lambda>c. py_lower (fst c)) ` set uniq = (\<lambda>c. py_lower (fst c)) ` set raw
     \<and> res = (case dropWhile (\<lambda>q. qf q = Inr None) (tv_queries uniq) of
                [] \<Rightarrow> Inr None | q # rest \<Rightarrow> qf q)
     \<and> (res = Inr (Some show)
        \<longrightarrow> (\<exists>pre q post. tv_queries uniq = pre @ q # post \<and> qf q = Inr (Some show)
               \<and> list_all (\<lambda>p. qf p = Inr None) pre))
     \<and> (res = Inl e
        \<longrightarrow> (\<exists>pre q post. tv_queries uniq = pre @ q # post \<and> qf q = Inl e
               \<and> list_all (\<lambda>p. qf p = Inr None) pre))
     \<and> (res = Inr None \<longrightarrow> list_all (\<lambda>q. qf q = Inr None) (tv_queries uniq))
     \<and> (search (fst query) (snd query) = Inl e
        \<longrightarrow> tv_query search query = Inr None \<and> tv_query_tool search query = Inl e)
     \<and> (search (fst query) (snd query) = Inr results
        \<longrightarrow> tv_query search query = choose_best_tv results (fst query) (snd query)
           \<and> tv_query_tool search query = choose_best_tv results (fst query) (snd query))"
proof -
  from src uniq have by_pat: "sfp = season_parent_by pat"
    by (auto simp: season_folder_parent_by season_folder_parent_tool_by)
  from src uniq have loop: "res = query_loop qf uniq"
    by (auto simp: try_tv_match_with_fallbacks_def try_tv_match_with_fallbacks_tool_def)
  have first: "res = (case dropWhile (\<lambda>q. qf q = Inr None) (tv_queries uniq) of
                [] \<Rightarrow> Inr None | q # rest \<Rightarrow> qf q)"
    unfolding loop by (rule query_loop_first)
  have c1: "parent_chain sfp fp
       = (if re_found pat (path_name dir) then [path_parent dir] else []) @ [dir, path_parent dir]"
    unfolding by_pat dir by (rule parent_chain_by)
  have c2: "dir \<noteq> fp \<and> path_name dir \<noteq> []
          \<and> normalize_show_hint (fst (split_stem_year (path_name dir))) \<noteq> []
          \<and> has_letter (normalize_show_hint (fst (split_stem_year (path_name dir))))
        \<longrightarrow> (normalize_show_hint (fst (split_stem_year (path_name dir))),
             snd (split_stem_year (path_name dir))) \<in> set raw"
  proof
    assume h: "dir \<noteq> fp \<and> path_name dir \<noteq> []
          \<and> normalize_show_hint (fst (split_stem_year (path_name dir))) \<noteq> []
          \<and> has_letter (normalize_show_hint (fst (split_stem_year (path_name dir))))"
    have "dir \<in> set (parent_chain sfp fp)" unfolding dir by (rule parent_in_chain)
    then have "(normalize_show_hint (fst (split_stem_year (path_name dir))),
             snd (split_stem_year (path_name dir))) \<in> set (dir_cands fp (parent_chain sfp fp))"
      by (rule dir_cands_mem) (use h in simp_all)
    then show "(normalize_show_hint (fst (split_stem_year (path_name dir))),
             snd (split_stem_year (path_name dir))) \<in> set raw"
      by (simp add: raw raw_candidates_def)
  qed
  have c3: "raw = forced_candidate force_show force_year @ parsed_candidate fp
               @ guess_candidate title_guess year_guess @ dir_cands fp (parent_chain sfp fp)"
    by (simp only: raw raw_candidates_def)
  have c4: "subseq uniq raw"
    by (simp only: uniq raw fallback_candidates_def uniq_loop_subseq)
  have c5: "distinct (map (\<lambda>c. py_lower (fst c)) uniq)"
    by (simp only: uniq fallback_candidates_def uniq_loop_distinct)
  have c6: "\<forall>c \<in> set uniq. find (\<lambda>d. py_lower (fst d) = py_lower (fst c)) raw = Some c"
  proof
    fix c
    assume "c \<in> set uniq"
    then have "c \<in> set (uniq_loop [] raw)" by (simp only: uniq raw fallback_candidates_def)
    then show "find (\<lambda>d. py_lower (fst d) = py_lower (fst c)) raw = Some c"
      by (rule uniq_loop_first)
  qed
  have c7: "(\<lambda>c. py_lower (fst c)) ` set uniq = (\<lambda>c. py_lower (fst c)) ` set raw"
    by (simp add: uniq raw fallback_candidates_def uniq_loop_keys)
  have c9: "res = Inr (Some show)
        \<longrightarrow> (\<exists>pre q post. tv_queries uniq = pre @ q # post \<and> qf q = Inr (Some show)
               \<and> list_all (\<lambda>p. qf p = Inr None) pre)"
  proof
    assume r: "res = Inr (Some show)"
    show "\<exists>pre q post. tv_queries uniq = pre @ q # post \<and> qf q = Inr (Some show)
               \<and> list_all (\<lambda>p. qf p = Inr None) pre"
      using first_query_split [of qf "tv_queries uniq" "Inr (Some show)"] first r by simp
  qed
  have c10: "res = Inl e
        \<longrightarrow> (\<exists>pre q post. tv_queries uniq = pre @ q # post \<and> qf q = Inl e
               \<and> list_all (\<lambda>p. qf p = Inr None) pre)"
  proof
    assume r: "res = Inl e"
    show "\<exists>pre q post. tv_queries uniq = pre @ q # post \<and> qf q = Inl e
               \<and> list_all (\<lambda>p. qf p = Inr None) pre"
      using first_query_split [of qf "tv_queries uniq" "Inl e"] first r by simp
  qed
  have c11: "res = Inr None \<longrightarrow> list_all (\<lambda>q. qf q = Inr None) (tv_queries uniq)"
  proof
    assume r: "res = Inr None"
    show "list_all (\<lambda>q. qf q = Inr None) (tv_queries uniq)"
      using first_query_none [of qf "tv_queries uniq"] first r by simp
  qed
  have c12: "search (fst query) (snd query) = Inl e
        \<longrightarrow> tv_query search query = Inr None \<and> tv_query_tool search query = Inl e"
    using tv_query_failed by blast
  have c13: "search (fst query) (snd query) = Inr results
        \<longrightarrow> tv_query search query = choose_best_tv results (fst query) (snd query)
           \<and> tv_query_tool search query = choose_best_tv results (fst query) (snd query)"
    using tv_query_answered by blast
  from c1 c2 c3 c4 c5 c6 c7 first c9 c10 c11 c12 c13 show ?thesis by (intro conjI)
qed

lemma staffel_dir:
  "path_parent staffel_path \<noteq> staffel_path \<and> path_name (path_parent staffel_path) \<noteq> []
   \<and> normalize_show_hint (fst (split_stem_year (path_name (path_parent staffel_path))))
       = ''Staffel 1''
   \<and> snd (split_stem_year (path_name (path_parent staffel_path))) = None
   \<and> has_letter ''Staffel 1''"
  by code_simp

lemma staffel_season:
  "re_found season_words (path_name (path_parent staffel_path))
   \<and> \<not> re_found season_words_tool (path_name (path_parent staffel_path))"
  by code_simp

lemma staffel_parents:
  "path_parent staffel_path = [''Dark (2017)'', ''Staffel 1'']
   \<and> path_parent [''Dark (2017)'', ''Staffel 1''] = [''Dark (2017)'']"
  by code_simp

lemma staffel_raw:
  "raw_candidates season_folder_parent None None staffel_path ''S01E01'' None
     = [(''Unknown'', None), (''S01E01'', None), (''Dark'', Some 2017), (''Staffel 1'', None),
        (''Dark'', Some 2017)]"
  by code_simp

lemma staffel_raw_tool:
  "raw_candidates season_folder_parent_tool None None staffel_path ''S01E01'' None
     = [(''Unknown'', None), (''S01E01'', None), (''Staffel 1'', None), (''Dark'', Some 2017)]"
  by code_simp

lemma staffel_uniq:
  "fallback_candidates season_folder_parent None None staffel_path ''S01E01'' None
     = [(''Unknown'', None), (''S01E01'', None), (''Dark'', Some 2017), (''Staffel 1'', None)]"
  unfolding fallback_candidates_def staffel_raw by code_simp

lemma staffel_uniq_tool:
  "fallback_candidates season_folder_parent_tool None None staffel_path ''S01E01'' None
     = [(''Unknown'', None), (''S01E01'', None), (''Staffel 1'', None), (''Dark'', Some 2017)]"
  unfolding fallback_candidates_def staffel_raw_tool by code_simp

lemma staffel_match:
  "try_tv_match_with_fallbacks staffel_catalog staffel_path ''S01E01'' None None None
     = Inr (Some dark_item)"
  unfolding try_tv_match_with_fallbacks_def staffel_uniq by code_simp

lemma staffel_error_tool:
  "try_tv_match_with_fallbacks_tool staffel_catalog staffel_path ''S01E01'' None None None
     = Inl RequestError"
  unfolding try_tv_match_with_fallbacks_tool_def staffel_uniq_tool by code_simp

lemma lost_failing:
  "try_tv_match_with_fallbacks failing_catalog lost_path ''Lost S01E01'' None None None = Inr None"
  unfolding try_tv_match_with_fallbacks_def lost_uniq by code_simp

theorem tv_fallback_chain_witness:
  "parent_chain season_folder_parent staffel_path
     = [[''Dark (2017)''], [''Dark (2017)'', ''Staffel 1''], [''Dark (2017)'']]
   \<and> parent_chain season_folder_parent_tool staffel_path
     = [[''Dark (2017)'', ''Staffel 1''], [''Dark (2017)'']]
   \<and> (''Staffel 1'', None)
       \<in> set (raw_candidates season_folder_parent None None staffel_path ''S01E01'' None)
   \<and> (''Staffel 1'', None)
       \<in> set (raw_candidates season_folder_parent_tool None None staffel_path ''S01E01'' None)
   \<and> find (\<lambda>d. py_lower (fst d) = py_lower ''Dark'')
        (raw_candidates season_folder_parent None None staffel_path ''S01E01'' None)
       = Some (''Dark'', Some 2017)
   \<and> (\<exists>pre q post.
         tv_queries (fallback_candidates season_folder_parent None None staffel_path ''S01E01'' None)
           = pre @ q # post
         \<and> tv_query staffel_catalog q = Inr (Some dark_item)
         \<and> list_all (\<lambda>p. tv_query staffel_catalog p = Inr None) pre)
   \<and> (\<exists>pre q post.
         tv_queries
           (fallback_candidates season_folder_parent_tool None None staffel_path ''S01E01'' None)
           = pre @ q # post
         \<and> tv_query_tool staffel_catalog q = Inl RequestError
         \<and> list_all (\<lambda>p. tv_query_tool staffel_catalog p = Inr None) pre)
   \<and> list_all (\<lambda>q. tv_query failing_catalog q = Inr None)
        (tv_queries (fallback_candidates season_folder_parent None None lost_path ''Lost S01E01''
           None))
   \<and> tv_query failing_catalog (''Lost'', None) = Inr None
   \<and> tv_query_tool failing_catalog (''Lost'', None) = Inl RequestError"
proof -
  have tools_src: "(pat = pat \<and> sfp = sfp \<and> qf = qf \<and> res = res) \<or> other"
    for pat :: matcher and sfp :: "path \<Rightarrow> path option"
      and qf :: "cand \<Rightarrow> py_error + item option" and res :: "py_error + item option" and other
    by simp
  have tool_src: "other \<or> (pat = pat \<and> sfp = sfp \<and> qf = qf \<and> res = res)"
    for pat :: matcher and sfp :: "path \<Rightarrow> path option"
      and qf :: "cand \<Rightarrow> py_error + item option" and res :: "py_error + item option" and other
    by simp
  note t1 = tv_fallback_chain [where pat = season_words and sfp = season_folder_parent
      and qf = "tv_query staffel_catalog" and search = staffel_catalog
      and res = "try_tv_match_with_fallbacks staffel_catalog staffel_path ''S01E01'' None None None"
      and fp = staffel_path and title_guess = "''S01E01''" and year_guess = None
      and force_show = None and force_year = None and ?show = dark_item and e = RequestError
      and query = "(''Lost'', None)" and results = "[]", OF tools_src refl refl refl]
  note t2 = tv_fallback_chain [where pat = season_words_tool and sfp = season_folder_parent_tool
      and qf = "tv_query_tool staffel_catalog" and search = staffel_catalog
      and res = "try_tv_match_with_fallbacks_tool staffel_catalog staffel_path ''S01E01'' None None
                   None"
      and fp = staffel_path and title_guess = "''S01E01''" and year_guess = None
      and force_show = None and force_year = None and ?show = dark_item and e = RequestError
      and query = "(''Lost'', None)" and results = "[]", OF tool_src refl refl refl]
  note t3 = tv_fallback_chain [where pat = season_words and sfp = season_folder_parent
      and qf = "tv_query failing_catalog" and search = failing_catalog
      and res = "try_tv_match_with_fallbacks failing_catalog lost_path ''Lost S01E01'' None None
                   None"
      and fp = lost_path and title_guess = "''Lost S01E01''" and year_guess = None
      and force_show = None and force_year = None and ?show = dark_item and e = RequestError
      and query = "(''Lost'', None)" and results = "[]", OF tools_src refl refl refl]
  from t1 [THEN conjunct1]
  have "parent_chain season_folder_parent staffel_path
          = [path_parent (path_parent staffel_path)]
            @ [path_parent staffel_path, path_parent (path_parent staffel_path)]"
    by (simp only: staffel_season if_True)
  then have w1: "parent_chain season_folder_parent staffel_path
     = [[''Dark (2017)''], [''Dark (2017)'', ''Staffel 1''], [''Dark (2017)'']]"
    by (simp add: staffel_parents)
  from t2 [THEN conjunct1]
  have "parent_chain season_folder_parent_tool staffel_path
          = [] @ [path_parent staffel_path, path_parent (path_parent staffel_path)]"
    by (simp only: staffel_season if_False)
  then have w2: "parent_chain season_folder_parent_tool staffel_path
     = [[''Dark (2017)'', ''Staffel 1''], [''Dark (2017)'']]"
    by (simp add: staffel_parents)
  from t1 [THEN conjunct2, THEN conjunct1] staffel_dir
  have w3: "(''Staffel 1'', None)
       \<in> set (raw_candidates season_folder_parent None None staffel_path ''S01E01'' None)"
    by simp
  from t2 [THEN conjunct2, THEN conjunct1] staffel_dir
  have w4: "(''Staffel 1'', None)
       \<in> set (raw_candidates season_folder_parent_tool None None staffel_path ''S01E01'' None)"
    by simp
  have mem: "(''Dark'', Some 2017)
       \<in> set (fallback_candidates season_folder_parent None None staffel_path ''S01E01'' None)"
    by (simp add: staffel_uniq)
  from t1 [THEN conjunct2, THEN conjunct2, THEN conjunct2, THEN conjunct2, THEN conjunct2,
      THEN conjunct1, THEN bspec, OF mem]
  have w5: "find (\<lambda>d. py_lower (fst d) = py_lower ''Dark'')
        (raw_candidates season_folder_parent None None staffel_path ''S01E01'' None)
       = Some (''Dark'', Some 2017)"
    by (simp only: fst_conv)
  note w6 = t1 [THEN conjunct2, THEN conjunct2, THEN conjunct2, THEN conjunct2, THEN conjunct2,
      THEN conjunct2, THEN conjunct2, THEN conjunct2, THEN conjunct1, THEN mp, OF staffel_match]
  note w7 = t2 [THEN conjunct2, THEN conjunct2, THEN conjunct2, THEN conjunct2, THEN conjunct2,
      THEN conjunct2, THEN conjunct2, THEN conjunct2, THEN conjunct2, THEN conjunct1, THEN mp,
      OF staffel_error_tool]
  note w8 = t3 [THEN conjunct2, THEN conjunct2, THEN conjunct2, THEN conjunct2, THEN conjunct2,
      THEN conjunct2, THEN conjunct2, THEN conjunct2, THEN conjunct2, THEN conjunct2,
      THEN conjunct1, THEN mp, OF lost_failing]
  have "failing_catalog (fst (''Lost'', None)) (snd (''Lost'', None)) = Inl RequestError"
    by (simp only: failing_catalog_def)
  note w9 = t3 [THEN conjunct2, THEN conjunct2, THEN conjunct2, THEN conjunct2, THEN conjunct2,
      THEN conjunct2, THEN conjunct2, THEN conjunct2, THEN conjunct2, THEN conjunct2,
      THEN conjunct2, THEN conjunct1, THEN mp, OF this]
  from w1 w2 w3 w4 w5 w6 w7 w8 w9 show ?thesis by (intro conjI) (simp_all only: simp_thms)
qed

end
